theory Spec2Isabelle
  imports Main "HOL-Library.Word"
begin

section \<open>Values, fatal stops and sequencing\<close>

text \<open>
  Go's \<^verbatim>\<open>int\<close> is a 64-bit two's-complement integer on the toolkit's 64-bit target:
  \<^verbatim>\<open>+=\<close> wraps, and \<^verbatim>\<open>x < 0\<close> reads the sign bit (\<open>sint x < 0\<close>).
  Pointers are addresses into an explicit store; a nil pointer is \<open>None\<close>.
  \<^verbatim>\<open>func()\<close> values are names whose bodies are given by the environment.
\<close>

type_synonym go_int = "64 word"
type_synonym uint32 = "32 word"
type_synonym ptr = nat
type_synonym func = nat
type_synonym LayoutResult = nat
type_synonym go_error = string

text \<open>
  A panic, a nil dereference, a write to a nil map, a lock that is never granted and an
  unlock of a free mutex all end the run; the model returns them as \<open>Inl\<close> and keeps no state after them.
\<close>

datatype fatal =
    AddOnRemoved
  | NegativeRefs
  | IgnoreOnRemoved
  | NegativeIgnored
  | OnlyInThreadedMode
  | NilDereference
  | Blocked
  | UnlockOfUnlocked
  | NilMapAssignment
  | ExternalPanic string

definition bindR :: "fatal + 'a \<Rightarrow> ('a \<Rightarrow> fatal + 'b) \<Rightarrow> fatal + 'b" where
  "bindR m k = (case m of Inl e \<Rightarrow> Inl e | Inr x \<Rightarrow> k x)"

section \<open>Locks\<close>

text \<open>\<^verbatim>\<open>sync.Mutex\<close>: the state is whether it is held.\<close>

definition Mutex_Lock :: "bool \<Rightarrow> fatal + bool" where
  "Mutex_Lock held = (if held then Inl Blocked else Inr True)"

definition Mutex_Unlock :: "bool \<Rightarrow> fatal + bool" where
  "Mutex_Unlock held = (if held then Inr False else Inl UnlockOfUnlocked)"

text \<open>\<^verbatim>\<open>sync.RWMutex\<close>: a number of readers, or one writer.\<close>

record RWMutex =
  readers :: nat
  writer :: bool

definition RWMutex_RLock :: "RWMutex \<Rightarrow> fatal + RWMutex" where
  "RWMutex_RLock mu = (if writer mu then Inl Blocked else Inr (mu\<lparr>readers := Suc (readers mu)\<rparr>))"

definition RWMutex_RUnlock :: "RWMutex \<Rightarrow> fatal + RWMutex" where
  "RWMutex_RUnlock mu =
     (if readers mu = 0 then Inl UnlockOfUnlocked else Inr (mu\<lparr>readers := readers mu - 1\<rparr>))"

definition RWMutex_Lock :: "RWMutex \<Rightarrow> fatal + RWMutex" where
  "RWMutex_Lock mu =
     (if writer mu \<or> readers mu \<noteq> 0 then Inl Blocked else Inr (mu\<lparr>writer := True\<rparr>))"

definition RWMutex_Unlock :: "RWMutex \<Rightarrow> fatal + RWMutex" where
  "RWMutex_Unlock mu = (if writer mu then Inr (mu\<lparr>writer := False\<rparr>) else Inl UnlockOfUnlocked)"

section \<open>Thread lock helpers\<close>

text \<open>
  The package variables \<^verbatim>\<open>Threaded\<close> and \<^verbatim>\<open>MsgLoopMutex\<close>, and the number of
  \<^verbatim>\<open>runtime.LockOSThread\<close> calls of the calling goroutine that are not yet undone
  (\<^verbatim>\<open>runtime.UnlockOSThread\<close> without a pin is a no-op).
\<close>

record threadGate =
  Threaded :: bool
  MsgLoopMutex :: bool
  osThreadPins :: nat

definition LockThread :: "threadGate \<Rightarrow> fatal + threadGate" where
  "LockThread s =
     (if Threaded s
      then bindR (Mutex_Lock (MsgLoopMutex s)) (\<lambda>h. Inr (s\<lparr>MsgLoopMutex := h\<rparr>))
      else Inr s)"

definition UnlockThread :: "threadGate \<Rightarrow> fatal + threadGate" where
  "UnlockThread s =
     (if Threaded s
      then bindR (Mutex_Unlock (MsgLoopMutex s)) (\<lambda>h. Inr (s\<lparr>MsgLoopMutex := h\<rparr>))
      else Inr s)"

definition EnterThread :: "threadGate \<Rightarrow> fatal + threadGate" where
  "EnterThread s =
     (if \<not> Threaded s then Inl OnlyInThreadedMode
      else LockThread (s\<lparr>osThreadPins := Suc (osThreadPins s)\<rparr>))"

definition LeaveThread :: "threadGate \<Rightarrow> fatal + threadGate" where
  "LeaveThread s =
     (if \<not> Threaded s then Inl OnlyInThreadedMode
      else bindR (UnlockThread s) (\<lambda>s1. Inr (s1\<lparr>osThreadPins := osThreadPins s1 - 1\<rparr>)))"

text \<open>
  \<^verbatim>\<open>RunUnlocked(f)\<close>: the deferred \<^verbatim>\<open>LockThread\<close> runs when \<^verbatim>\<open>f\<close> returns; when
  \<^verbatim>\<open>f\<close> panics the panic goes on after it, and the model keeps only the panic.
\<close>

definition RunUnlocked :: "(threadGate \<Rightarrow> fatal + threadGate) \<Rightarrow> threadGate \<Rightarrow> fatal + threadGate" where
  "RunUnlocked f s = bindR (UnlockThread s) (\<lambda>s1. bindR (f s1) LockThread)"

section \<open>The window group manager and the window groups\<close>

record windowGroupManager =
  mutex :: RWMutex
  groups :: "(uint32 \<rightharpoonup> ptr) option"

text \<open>
  \<^verbatim>\<open>completion\<close> is a \<^verbatim>\<open>func(uint32)\<close>: the method value \<^verbatim>\<open>m.removeGroup\<close> of the
  global manager (the only one \<^verbatim>\<open>CreateGroup\<close> passes to \<^verbatim>\<open>newWindowGroup\<close>), or
  any other function, a name whose body the environment gives; \<open>None\<close> is a nil
  function value.
\<close>

datatype completionFunc = wgm_removeGroup | completionNamed nat

record WindowGroup =
  refs :: go_int
  ignored :: go_int
  threadID :: uint32
  completion :: "completionFunc option"
  removed :: bool
  toolTip :: "ptr option"
  activeForm :: "ptr option"
  syncMutex :: bool
  syncFuncs :: "func list"
  layoutResults :: "LayoutResult list"
  layoutStopwatch :: "ptr option"

text \<open>
  The log of calls is not a field of any Go value: it records, in order, each entry into
  \<^verbatim>\<open>dispose\<close> and each call that leaves the file (a queued function, the layout
  application, the tooltip constructor and destructor, the completion).
\<close>

datatype event =
    EvDispose ptr
  | EvToolTipDispose ptr
  | EvCompletion uint32
  | EvCall func
  | EvApplyLayout "LayoutResult list" "ptr option"
  | EvNewToolTip

text \<open>The global \<^verbatim>\<open>wgm\<close>, the store of window groups with its next free address, the log.\<close>

record world =
  wgm :: windowGroupManager
  heap :: "ptr \<rightharpoonup> WindowGroup"
  nextPtr :: ptr
  events :: "event list"

text \<open>
  What the file calls and does not define: the body of each queued function and of each
  completion other than \<^verbatim>\<open>removeGroup\<close>, \<^verbatim>\<open>NewToolTip\<close>, \<^verbatim>\<open>(*ToolTip).Dispose\<close>
  and \<^verbatim>\<open>applyLayoutResults\<close>.
\<close>

record externals =
  callFunc :: "func \<Rightarrow> world \<Rightarrow> fatal + world"
  callCompletion :: "nat \<Rightarrow> uint32 \<Rightarrow> world \<Rightarrow> fatal + world"
  NewToolTip :: "world \<Rightarrow> fatal + ((ptr option \<times> go_error option) \<times> world)"
  ToolTip_Dispose :: "ptr \<Rightarrow> world \<Rightarrow> fatal + world"
  applyLayoutResults :: "LayoutResult list \<Rightarrow> ptr option \<Rightarrow> world \<Rightarrow> fatal + world"

definition logEvent :: "event \<Rightarrow> world \<Rightarrow> world" where
  "logEvent e w = w\<lparr>events := events w @ [e]\<rparr>"

definition putGroup :: "ptr \<Rightarrow> WindowGroup \<Rightarrow> world \<Rightarrow> world" where
  "putGroup g gr w = w\<lparr>heap := (heap w)(g \<mapsto> gr)\<rparr>"

text \<open>A field assignment through the pointer \<open>g\<close>; a nil or dangling \<open>g\<close> panics.\<close>

definition modifyGroup :: "ptr \<Rightarrow> (WindowGroup \<Rightarrow> WindowGroup) \<Rightarrow> world \<Rightarrow> fatal + world" where
  "modifyGroup g f w =
     (case heap w g of None \<Rightarrow> Inl NilDereference | Some gr \<Rightarrow> Inr (putGroup g (f gr) w))"

subsection \<open>windowGroupManager\<close>

definition lookupGroup :: "windowGroupManager \<Rightarrow> uint32 \<Rightarrow> ptr option" where
  "lookupGroup m tid = (case groups m of None \<Rightarrow> None | Some mp \<Rightarrow> mp tid)"

definition Group :: "uint32 \<Rightarrow> world \<Rightarrow> fatal + (ptr option \<times> world)" where
  "Group tid w =
     bindR (RWMutex_RLock (mutex (wgm w))) (\<lambda>mu1.
       let res = (if groups (wgm w) = None then None else lookupGroup (wgm w) tid)
       in bindR (RWMutex_RUnlock mu1) (\<lambda>mu2. Inr (res, w\<lparr>wgm := (wgm w)\<lparr>mutex := mu2\<rparr>\<rparr>)))"

definition removeGroup :: "uint32 \<Rightarrow> windowGroupManager \<Rightarrow> fatal + windowGroupManager" where
  "removeGroup tid m =
     bindR (RWMutex_Lock (mutex m)) (\<lambda>mu1.
       let m1 = m\<lparr>mutex := mu1,
                  groups := (case groups m of None \<Rightarrow> None | Some mp \<Rightarrow> Some (mp(tid := None)))\<rparr>
       in bindR (RWMutex_Unlock (mutex m1)) (\<lambda>mu2. Inr (m1\<lparr>mutex := mu2\<rparr>)))"

text \<open>The call \<^verbatim>\<open>g.completion(g.threadID)\<close> of a non-nil completion.\<close>

definition runCompletion :: "externals \<Rightarrow> completionFunc \<Rightarrow> uint32 \<Rightarrow> world \<Rightarrow> fatal + world" where
  "runCompletion ext c tid w =
     (case c of
        wgm_removeGroup \<Rightarrow> bindR (removeGroup tid (wgm w)) (\<lambda>m. Inr (w\<lparr>wgm := m\<rparr>))
      | completionNamed n \<Rightarrow> callCompletion ext n tid w)"

subsection \<open>WindowGroup\<close>

definition newWindowGroup :: "uint32 \<Rightarrow> completionFunc option \<Rightarrow> WindowGroup" where
  "newWindowGroup tid c =
     \<lparr>refs = 0, ignored = 0, threadID = tid, completion = c, removed = False,
      toolTip = None, activeForm = None, syncMutex = False, syncFuncs = [],
      layoutResults = [], layoutStopwatch = None\<rparr>"

definition ThreadID :: "ptr \<Rightarrow> world \<Rightarrow> fatal + uint32" where
  "ThreadID g w = (case heap w g of None \<Rightarrow> Inl NilDereference | Some gr \<Rightarrow> Inr (threadID gr))"

definition Refs :: "ptr \<Rightarrow> world \<Rightarrow> fatal + go_int" where
  "Refs g w = (case heap w g of None \<Rightarrow> Inl NilDereference | Some gr \<Rightarrow> Inr (refs gr))"

definition ToolTip :: "ptr \<Rightarrow> world \<Rightarrow> fatal + ptr option" where
  "ToolTip g w = (case heap w g of None \<Rightarrow> Inl NilDereference | Some gr \<Rightarrow> Inr (toolTip gr))"

definition ActiveForm :: "ptr \<Rightarrow> world \<Rightarrow> fatal + ptr option" where
  "ActiveForm g w = (case heap w g of None \<Rightarrow> Inl NilDereference | Some gr \<Rightarrow> Inr (activeForm gr))"

definition SetActiveForm :: "ptr \<Rightarrow> ptr option \<Rightarrow> world \<Rightarrow> fatal + world" where
  "SetActiveForm g form w = modifyGroup g (\<lambda>gr. gr\<lparr>activeForm := form\<rparr>) w"

text \<open>
  \<^verbatim>\<open>dispose\<close>: the tooltip's \<^verbatim>\<open>Dispose\<close> (when there is one) and then
  \<^verbatim>\<open>g.toolTip = nil\<close>; \<^verbatim>\<open>g.removed = true\<close>; \<^verbatim>\<open>g.completion(g.threadID)\<close>.
\<close>

definition dispose :: "externals \<Rightarrow> ptr \<Rightarrow> world \<Rightarrow> fatal + world" where
  "dispose ext g w0 =
     (let w = logEvent (EvDispose g) w0 in
      case heap w g of
        None \<Rightarrow> Inl NilDereference
      | Some gr \<Rightarrow>
          bindR (case toolTip gr of
                   None \<Rightarrow> Inr w
                 | Some tt \<Rightarrow>
                     bindR (ToolTip_Dispose ext tt (logEvent (EvToolTipDispose tt) w))
                       (modifyGroup g (\<lambda>gr. gr\<lparr>toolTip := None\<rparr>)))
            (\<lambda>w1. bindR (modifyGroup g (\<lambda>gr. gr\<lparr>removed := True\<rparr>) w1)
            (\<lambda>w2. case heap w2 g of
                     None \<Rightarrow> Inl NilDereference
                   | Some gr2 \<Rightarrow>
                       (case completion gr2 of
                          None \<Rightarrow> Inl NilDereference
                        | Some c \<Rightarrow>
                            runCompletion ext c (threadID gr2)
                              (logEvent (EvCompletion (threadID gr2)) w2)))))"

definition Add :: "externals \<Rightarrow> ptr \<Rightarrow> go_int \<Rightarrow> world \<Rightarrow> fatal + world" where
  "Add ext g delta w =
     (case heap w g of
        None \<Rightarrow> Inl NilDereference
      | Some gr \<Rightarrow>
          if removed gr then Inl AddOnRemoved
          else
            let gr1 = gr\<lparr>refs := refs gr + delta\<rparr> in
            if sint (refs gr1) < 0 then Inl NegativeRefs
            else if refs gr1 - ignored gr1 = 0 then dispose ext g (putGroup g gr1 w)
            else Inr (putGroup g gr1 w))"

definition Done :: "externals \<Rightarrow> ptr \<Rightarrow> world \<Rightarrow> fatal + world" where
  "Done ext g w = Add ext g (- 1) w"

definition ignore :: "externals \<Rightarrow> ptr \<Rightarrow> go_int \<Rightarrow> world \<Rightarrow> fatal + world" where
  "ignore ext g delta w =
     (case heap w g of
        None \<Rightarrow> Inl NilDereference
      | Some gr \<Rightarrow>
          if removed gr then Inl IgnoreOnRemoved
          else
            let gr1 = gr\<lparr>ignored := ignored gr + delta\<rparr> in
            if sint (ignored gr1) < 0 then Inl NegativeIgnored
            else if refs gr1 - ignored gr1 = 0 then dispose ext g (putGroup g gr1 w)
            else Inr (putGroup g gr1 w))"

definition syncMutex_Lock :: "ptr \<Rightarrow> world \<Rightarrow> fatal + world" where
  "syncMutex_Lock g w =
     (case heap w g of
        None \<Rightarrow> Inl NilDereference
      | Some gr \<Rightarrow> bindR (Mutex_Lock (syncMutex gr)) (\<lambda>h. Inr (putGroup g (gr\<lparr>syncMutex := h\<rparr>) w)))"

definition syncMutex_Unlock :: "ptr \<Rightarrow> world \<Rightarrow> fatal + world" where
  "syncMutex_Unlock g w =
     (case heap w g of
        None \<Rightarrow> Inl NilDereference
      | Some gr \<Rightarrow> bindR (Mutex_Unlock (syncMutex gr)) (\<lambda>h. Inr (putGroup g (gr\<lparr>syncMutex := h\<rparr>) w)))"

definition Synchronize :: "ptr \<Rightarrow> func \<Rightarrow> world \<Rightarrow> fatal + world" where
  "Synchronize g f w =
     bindR (syncMutex_Lock g w) (\<lambda>w1.
     bindR (modifyGroup g (\<lambda>gr. gr\<lparr>syncFuncs := syncFuncs gr @ [f]\<rparr>) w1)
       (syncMutex_Unlock g))"

definition SynchronizeLayout :: "ptr \<Rightarrow> LayoutResult list \<Rightarrow> ptr option \<Rightarrow> world \<Rightarrow> fatal + world" where
  "SynchronizeLayout g results stopwatch w =
     bindR (syncMutex_Lock g w) (\<lambda>w1.
     bindR (modifyGroup g (\<lambda>gr. gr\<lparr>layoutResults := results\<rparr>) w1) (\<lambda>w2.
     bindR (modifyGroup g (\<lambda>gr. gr\<lparr>layoutStopwatch := stopwatch\<rparr>) w2)
       (syncMutex_Unlock g)))"

text \<open>The loop \<^verbatim>\<open>for _, f := range funcs { f() }\<close>; a panic of \<^verbatim>\<open>f\<close> ends it.\<close>

fun runFuncs :: "externals \<Rightarrow> func list \<Rightarrow> world \<Rightarrow> fatal + world" where
  "runFuncs ext [] w = Inr w"
| "runFuncs ext (f # fs) w = bindR (callFunc ext f (logEvent (EvCall f) w)) (runFuncs ext fs)"

definition RunSynchronized :: "externals \<Rightarrow> ptr \<Rightarrow> world \<Rightarrow> fatal + world" where
  "RunSynchronized ext g w =
     bindR (syncMutex_Lock g w) (\<lambda>w1.
       case heap w1 g of
         None \<Rightarrow> Inl NilDereference
       | Some gr \<Rightarrow>
           let funcs = syncFuncs gr;
               results = layoutResults gr;
               stopwatch = layoutStopwatch gr
           in
           bindR (modifyGroup g (\<lambda>gr. gr\<lparr>syncFuncs := []\<rparr>) w1) (\<lambda>w2.
           bindR (modifyGroup g (\<lambda>gr. gr\<lparr>layoutResults := []\<rparr>) w2) (\<lambda>w3.
           bindR (modifyGroup g (\<lambda>gr. gr\<lparr>layoutStopwatch := None\<rparr>) w3) (\<lambda>w4.
           bindR (syncMutex_Unlock g w4) (\<lambda>w5.
           bindR (if length results > 0
                  then applyLayoutResults ext results stopwatch
                         (logEvent (EvApplyLayout results stopwatch) w5)
                  else Inr w5)
             (runFuncs ext funcs))))))"

definition CreateToolTip ::
  "externals \<Rightarrow> ptr \<Rightarrow> world \<Rightarrow> fatal + ((ptr option \<times> go_error option) \<times> world)" where
  "CreateToolTip ext g w =
     (case heap w g of
        None \<Rightarrow> Inl NilDereference
      | Some gr \<Rightarrow>
          if toolTip gr \<noteq> None then Inr ((toolTip gr, None), w)
          else
            bindR (NewToolTip ext (logEvent EvNewToolTip w)) (\<lambda>((tt, err), w1).
              if err \<noteq> None then Inr ((None, err), w1)
              else
                bindR (modifyGroup g (\<lambda>gr. gr\<lparr>toolTip := tt\<rparr>) w1) (\<lambda>w2.
                bindR (ignore ext g 1 w2) (\<lambda>w3. Inr ((tt, None), w3)))))"

text \<open>
  \<^verbatim>\<open>CreateGroup\<close>: the fast path under the read lock, then the slow path under the
  write lock with the second look at the map. The new group is allocated at the next
  free address.
\<close>

definition setMutex :: "RWMutex \<Rightarrow> world \<Rightarrow> world" where
  "setMutex mu w = w\<lparr>wgm := (wgm w)\<lparr>mutex := mu\<rparr>\<rparr>"

definition CreateGroup :: "externals \<Rightarrow> uint32 \<Rightarrow> world \<Rightarrow> fatal + (ptr \<times> world)" where
  "CreateGroup ext tid w =
     bindR (RWMutex_RLock (mutex (wgm w))) (\<lambda>mu1.
       let w1 = setMutex mu1 w in
       case (if groups (wgm w1) \<noteq> None then lookupGroup (wgm w1) tid else None) of
         Some grp \<Rightarrow>
           bindR (RWMutex_RUnlock (mutex (wgm w1))) (\<lambda>mu2.
           bindR (Add ext grp 1 (setMutex mu2 w1)) (\<lambda>w2. Inr (grp, w2)))
       | None \<Rightarrow>
           bindR (RWMutex_RUnlock (mutex (wgm w1))) (\<lambda>mu2.
           bindR (RWMutex_Lock mu2) (\<lambda>mu3.
             let w3 = setMutex mu3 w1 in
             case (if groups (wgm w3) = None then None else lookupGroup (wgm w3) tid) of
               Some grp \<Rightarrow>
                 bindR (RWMutex_Unlock (mutex (wgm w3))) (\<lambda>mu4.
                 bindR (Add ext grp 1 (setMutex mu4 w3)) (\<lambda>w4. Inr (grp, w4)))
             | None \<Rightarrow>
                 let w4 = (if groups (wgm w3) = None
                           then w3\<lparr>wgm := (wgm w3)\<lparr>groups := Some Map.empty\<rparr>\<rparr> else w3);
                     grp = nextPtr w4;
                     w5 = (putGroup grp (newWindowGroup tid (Some wgm_removeGroup)) w4)
                            \<lparr>nextPtr := Suc (nextPtr w4)\<rparr>
                 in
                 bindR (Add ext grp 1 w5) (\<lambda>w6.
                   case groups (wgm w6) of
                     None \<Rightarrow> Inl NilMapAssignment
                   | Some mp \<Rightarrow>
                       let w7 = w6\<lparr>wgm := (wgm w6)\<lparr>groups := Some (mp(tid \<mapsto> grp))\<rparr>\<rparr>
                       in bindR (RWMutex_Unlock (mutex (wgm w7))) (\<lambda>mu8.
                            Inr (grp, setMutex mu8 w7))))))"

section \<open>Callers and observations used by the properties\<close>

text \<open>\<^verbatim>\<open>g.refs - g.ignored\<close>, the expression both \<^verbatim>\<open>Add\<close> and \<^verbatim>\<open>ignore\<close> compare with 0.\<close>

definition liveness :: "WindowGroup \<Rightarrow> go_int" where
  "liveness gr = refs gr - ignored gr"

text \<open>How often \<^verbatim>\<open>dispose\<close> has been entered for the group at \<open>g\<close>.\<close>

definition disposals :: "ptr \<Rightarrow> world \<Rightarrow> nat" where
  "disposals g w = count_list (events w) (EvDispose g)"

text \<open>A caller making a sequence of \<^verbatim>\<open>Add\<close> and \<^verbatim>\<open>Done\<close> calls on one group.\<close>

datatype refCall = CallAdd go_int | CallDone

fun applyRefCall :: "externals \<Rightarrow> ptr \<Rightarrow> refCall \<Rightarrow> world \<Rightarrow> fatal + world" where
  "applyRefCall ext g (CallAdd d) w = Add ext g d w"
| "applyRefCall ext g CallDone w = Done ext g w"

fun runRefCalls :: "externals \<Rightarrow> ptr \<Rightarrow> refCall list \<Rightarrow> world \<Rightarrow> fatal + world" where
  "runRefCalls ext g [] w = Inr w"
| "runRefCalls ext g (c # cs) w = bindR (applyRefCall ext g c w) (runRefCalls ext g cs)"

text \<open>The group as the drain leaves it under the lock, before anything is called.\<close>

definition drained :: "WindowGroup \<Rightarrow> WindowGroup" where
  "drained gr = gr\<lparr>syncFuncs := [], layoutResults := [], layoutStopwatch := None\<rparr>"

text \<open>
  Callers: \<^verbatim>\<open>g.Synchronize(f1); g.Synchronize(f2); g.RunSynchronized()\<close>, and the same
  with two \<^verbatim>\<open>SynchronizeLayout\<close> submissions.
\<close>

definition Synchronize2_RunSynchronized ::
  "externals \<Rightarrow> ptr \<Rightarrow> func \<Rightarrow> func \<Rightarrow> world \<Rightarrow> fatal + world" where
  "Synchronize2_RunSynchronized ext g f1 f2 w =
     bindR (Synchronize g f1 w) (\<lambda>w1.
     bindR (Synchronize g f2 w1) (RunSynchronized ext g))"

definition SynchronizeLayout2_RunSynchronized ::
  "externals \<Rightarrow> ptr \<Rightarrow> LayoutResult list \<Rightarrow> ptr option \<Rightarrow> LayoutResult list \<Rightarrow> ptr option \<Rightarrow>
   world \<Rightarrow> fatal + world" where
  "SynchronizeLayout2_RunSynchronized ext g r1 s1 r2 s2 w =
     bindR (SynchronizeLayout g r1 s1 w) (\<lambda>w1.
     bindR (SynchronizeLayout g r2 s2 w1) (RunSynchronized ext g))"

text \<open>The pending callbacks of the group at \<open>g\<close> after a run, when it returned.\<close>

definition pendingAfter :: "ptr \<Rightarrow> fatal + world \<Rightarrow> func list option" where
  "pendingAfter g r = (case r of Inl e \<Rightarrow> None | Inr w \<Rightarrow> map_option syncFuncs (heap w g))"


text \<open>
  What a \<^verbatim>\<open>CreateGroup\<close> that returned handed out: the address, the group's \<^verbatim>\<open>refs\<close>
  and \<^verbatim>\<open>removed\<close>, and what the manager has registered for the group's thread.
\<close>

definition returnedGroupState ::
  "fatal + (ptr \<times> world) \<Rightarrow> (ptr \<times> go_int \<times> bool \<times> ptr option) option" where
  "returnedGroupState r =
     (case r of
        Inl e \<Rightarrow> None
      | Inr (g, w) \<Rightarrow>
          map_option (\<lambda>gr. (g, refs gr, removed gr, lookupGroup (wgm w) (threadID gr))) (heap w g))"

text \<open>
  A caller: \<^verbatim>\<open>g := wgm.CreateGroup(tid); g.CreateToolTip(); g.Add(-2)\<close> and then
  \<^verbatim>\<open>wgm.CreateGroup(tid)\<close> again.
\<close>

definition overReleaseThenCreateGroup :: "externals \<Rightarrow> uint32 \<Rightarrow> world \<Rightarrow> fatal + (ptr \<times> world)" where
  "overReleaseThenCreateGroup ext tid w =
     bindR (CreateGroup ext tid w) (\<lambda>(g, w1).
     bindR (CreateToolTip ext g w1) (\<lambda>(r, w2).
     bindR (Add ext g (- 2) w2) (CreateGroup ext tid)))"

subsection \<open>Collaborators and states for concrete runs\<close>

text \<open>Collaborators that return at once and change nothing; the constructor fails.\<close>

definition inertExternals :: externals where
  "inertExternals =
     \<lparr>callFunc = (\<lambda>f w. Inr w),
      callCompletion = (\<lambda>n tid w. Inr w),
      NewToolTip = (\<lambda>w. Inr ((None, Some ''NewToolTip failed''), w)),
      ToolTip_Dispose = (\<lambda>tt w. Inr w),
      applyLayoutResults = (\<lambda>rs sw w. Inr w)\<rparr>"

text \<open>
  Modelled from the spec: \<^verbatim>\<open>NewToolTip\<close> and \<^verbatim>\<open>(*ToolTip).Dispose\<close> are not in the
  source files. The new tooltip "implicitly added" a reference "to this same group as a
  side effect of its own initialization", and that reference is released again when the
  group disposes the tooltip. \<open>ext\<close> is the environment of these two nested calls.
\<close>

definition tooltipNew :: "externals \<Rightarrow> ptr \<Rightarrow> ptr \<Rightarrow> world \<Rightarrow> fatal + ((ptr option \<times> go_error option) \<times> world)" where
  "tooltipNew ext g tt w = bindR (Add ext g 1 w) (\<lambda>w1. Inr ((Some tt, None), w1))"

definition tooltipDispose :: "externals \<Rightarrow> ptr \<Rightarrow> ptr \<Rightarrow> world \<Rightarrow> fatal + world" where
  "tooltipDispose ext g tt w = Done ext g w"

definition tooltipExternals :: "ptr \<Rightarrow> ptr \<Rightarrow> externals" where
  "tooltipExternals g tt =
     inertExternals\<lparr>NewToolTip := tooltipNew inertExternals g tt,
                    ToolTip_Dispose := tooltipDispose inertExternals g\<rparr>"

text \<open>Queued functions whose body is \<^verbatim>\<open>g.Synchronize(f + 10)\<close>.\<close>

definition requeueExternals :: "ptr \<Rightarrow> externals" where
  "requeueExternals g = inertExternals\<lparr>callFunc := (\<lambda>f. Synchronize g (f + 10))\<rparr>"


definition freeRWMutex :: RWMutex where
  "freeRWMutex = \<lparr>readers = 0, writer = False\<rparr>"

text \<open>A group of thread 7 at address 0 with the given counters, tooltip and queue,
  registered in the manager.\<close>

definition exGroup :: "go_int \<Rightarrow> go_int \<Rightarrow> ptr option \<Rightarrow> func list \<Rightarrow> WindowGroup" where
  "exGroup r i tt fs =
     (newWindowGroup 7 (Some wgm_removeGroup))\<lparr>refs := r, ignored := i, toolTip := tt, syncFuncs := fs\<rparr>"

definition exWorld :: "go_int \<Rightarrow> go_int \<Rightarrow> ptr option \<Rightarrow> func list \<Rightarrow> world" where
  "exWorld r i tt fs =
     \<lparr>wgm = \<lparr>mutex = freeRWMutex, groups = Some [7 \<mapsto> 0]\<rparr>,
      heap = [0 \<mapsto> exGroup r i tt fs], nextPtr = 1, events = []\<rparr>"



text \<open>The group \<^verbatim>\<open>newWindowGroup(7, wgm.removeGroup)\<close> at address 0, the manager empty.\<close>

definition freshWorld :: world where
  "freshWorld =
     \<lparr>wgm = \<lparr>mutex = freeRWMutex, groups = None\<rparr>,
      heap = [0 \<mapsto> newWindowGroup 7 (Some wgm_removeGroup)], nextPtr = 1, events = []\<rparr>"

text \<open>The program start: the manager's map nil, no group allocated.\<close>

definition emptyWorld :: world where
  "emptyWorld =
     \<lparr>wgm = \<lparr>mutex = freeRWMutex, groups = None\<rparr>, heap = Map.empty, nextPtr = 0, events = []\<rparr>"

definition unthreadedGate :: threadGate where
  "unthreadedGate = \<lparr>Threaded = False, MsgLoopMutex = False, osThreadPins = 0\<rparr>"

section \<open>Sequencing and locks\<close>

lemma bindR_Inr [simp]: "bindR (Inr x) k = k x"
  by (simp add: bindR_def)

lemma bindR_Inl [simp]: "bindR (Inl e) k = Inl e"
  by (simp add: bindR_def)

lemma bindR_eq_Inr: "bindR m k = Inr y \<longleftrightarrow> (\<exists>x. m = Inr x \<and> k x = Inr y)"
  by (cases m) simp_all

lemma bindR_eq_Inl: "bindR m k = Inl e \<longleftrightarrow> m = Inl e \<or> (\<exists>x. m = Inr x \<and> k x = Inl e)"
  by (cases m) simp_all

lemmas run_defs =
  Add_def Done_def ignore_def dispose_def runCompletion_def removeGroup_def
  modifyGroup_def putGroup_def logEvent_def
  RWMutex_Lock_def RWMutex_Unlock_def RWMutex_RLock_def RWMutex_RUnlock_def
  Mutex_Lock_def Mutex_Unlock_def syncMutex_Lock_def syncMutex_Unlock_def
  Synchronize_def SynchronizeLayout_def RunSynchronized_def
  CreateToolTip_def CreateGroup_def setMutex_def lookupGroup_def
  newWindowGroup_def liveness_def disposals_def drained_def

lemmas example_defs =
  inertExternals_def tooltipExternals_def tooltipNew_def tooltipDispose_def
  requeueExternals_def freeRWMutex_def exGroup_def exWorld_def freshWorld_def
  unthreadedGate_def

section \<open>Reference counting\<close>

lemma Add_removed:
  "heap w g = Some gr \<Longrightarrow> removed gr \<Longrightarrow> Add ext g d w = Inl AddOnRemoved"
  by (simp add: Add_def)

lemma ignore_removed:
  "heap w g = Some gr \<Longrightarrow> removed gr \<Longrightarrow> ignore ext g d w = Inl IgnoreOnRemoved"
  by (simp add: ignore_def)

lemma Add_negative:
  "heap w g = Some gr \<Longrightarrow> \<not> removed gr \<Longrightarrow> sint (refs gr + d) < 0 \<Longrightarrow>
   Add ext g d w = Inl NegativeRefs"
  by (simp add: Add_def)

lemma ignore_negative:
  "heap w g = Some gr \<Longrightarrow> \<not> removed gr \<Longrightarrow> sint (ignored gr + d) < 0 \<Longrightarrow>
   ignore ext g d w = Inl NegativeIgnored"
  by (simp add: ignore_def)

lemma Add_live:
  "heap w g = Some gr \<Longrightarrow> \<not> removed gr \<Longrightarrow> 0 \<le> sint (refs gr + d) \<Longrightarrow>
   Add ext g d w =
     (if refs gr + d - ignored gr = 0
      then dispose ext g (putGroup g (gr\<lparr>refs := refs gr + d\<rparr>) w)
      else Inr (putGroup g (gr\<lparr>refs := refs gr + d\<rparr>) w))"
  by (simp add: Add_def Let_def)

lemma ignore_live:
  "heap w g = Some gr \<Longrightarrow> \<not> removed gr \<Longrightarrow> 0 \<le> sint (ignored gr + d) \<Longrightarrow>
   ignore ext g d w =
     (if refs gr - (ignored gr + d) = 0
      then dispose ext g (putGroup g (gr\<lparr>ignored := ignored gr + d\<rparr>) w)
      else Inr (putGroup g (gr\<lparr>ignored := ignored gr + d\<rparr>) w))"
  by (simp add: ignore_def Let_def)

lemma removeGroup_free:
  "mutex m = freeRWMutex \<Longrightarrow>
   removeGroup tid m =
     Inr (m\<lparr>groups := (case groups m of None \<Rightarrow> None | Some mp \<Rightarrow> Some (mp(tid := None)))\<rparr>)"
  by (simp add: removeGroup_def freeRWMutex_def RWMutex_Lock_def RWMutex_Unlock_def Let_def)

text \<open>\<^verbatim>\<open>dispose\<close> of a group without a tooltip: the flag, then the completion.\<close>

lemma dispose_no_toolTip:
  assumes "heap w g = Some gr" "toolTip gr = None"
  shows "dispose ext g w =
     (case completion gr of
        None \<Rightarrow> Inl NilDereference
      | Some c \<Rightarrow>
          runCompletion ext c (threadID gr)
            (w\<lparr>heap := (heap w)(g \<mapsto> gr\<lparr>removed := True\<rparr>),
               events := events w @ [EvDispose g, EvCompletion (threadID gr)]\<rparr>))"
  using assms
  by (simp add: dispose_def Let_def logEvent_def modifyGroup_def putGroup_def split: option.splits)

lemma dispose_no_toolTip_removeGroup:
  assumes "heap w g = Some gr" "toolTip gr = None" "completion gr = Some wgm_removeGroup"
    "mutex (wgm w) = freeRWMutex"
  shows "dispose ext g w =
     Inr (w\<lparr>heap := (heap w)(g \<mapsto> gr\<lparr>removed := True\<rparr>),
            events := events w @ [EvDispose g, EvCompletion (threadID gr)],
            wgm := (wgm w)\<lparr>groups := (case groups (wgm w) of None \<Rightarrow> None
                                       | Some mp \<Rightarrow> Some (mp(threadID gr := None)))\<rparr>\<rparr>)"
  using assms
  by (simp add: dispose_no_toolTip runCompletion_def removeGroup_free)

section \<open>Thread lock helpers outside multi-thread mode\<close>

text \<open>
  C8 (amended). While the multi-thread mode flag \<^verbatim>\<open>Threaded\<close> is false,
  \<^verbatim>\<open>LockThread\<close> and \<^verbatim>\<open>UnlockThread\<close> are no-ops: they return normally and leave
  the mutex and the thread pin count as they were. \<^verbatim>\<open>EnterThread\<close> and
  \<^verbatim>\<open>LeaveThread\<close> are not: both stop fatally with "call me only in threaded mode",
  before any lock is taken or any thread is pinned.
\<close>

theorem thread_helpers_unthreaded:
  "\<not> Threaded s \<Longrightarrow>
   LockThread s = Inr s \<and> UnlockThread s = Inr s \<and>
   EnterThread s = Inl OnlyInThreadedMode \<and> LeaveThread s = Inl OnlyInThreadedMode"
  by (simp add: LockThread_def UnlockThread_def EnterThread_def LeaveThread_def)

theorem thread_helpers_unthreaded_witness:
  "\<not> Threaded unthreadedGate \<and>
   LockThread unthreadedGate = Inr unthreadedGate \<and>
   UnlockThread unthreadedGate = Inr unthreadedGate \<and>
   EnterThread unthreadedGate = Inl OnlyInThreadedMode \<and>
   LeaveThread unthreadedGate = Inl OnlyInThreadedMode"
proof -
  have h: "\<not> Threaded unthreadedGate" by (simp add: unthreadedGate_def)
  from thread_helpers_unthreaded [OF h] h show ?thesis by simp
qed

text \<open>
  C8 as stated fails: with the flag false, entering and leaving a message-loop context
  do not complete normally.
\<close>

theorem EnterThread_unthreaded_counterexample:
  "Threaded unthreadedGate = False \<and>
   EnterThread unthreadedGate = Inl OnlyInThreadedMode \<and>
   LeaveThread unthreadedGate = Inl OnlyInThreadedMode"
  by (simp add: unthreadedGate_def EnterThread_def LeaveThread_def)

section \<open>Fatal conditions of Add and ignore\<close>

text \<open>
  C6 (amended). For every WindowGroup: \<^verbatim>\<open>Add\<close> and \<^verbatim>\<open>ignore\<close> on a group marked
  removed stop fatally; \<^verbatim>\<open>Add\<close> on a live group stops fatally when the updated
  \<^verbatim>\<open>refs\<close> (computed with Go's wrap-around) is negative; \<^verbatim>\<open>ignore\<close> on a live group
  stops fatally when the updated \<^verbatim>\<open>ignored\<close> is negative. Any other fatal stop of
  either call is one raised inside \<^verbatim>\<open>dispose\<close>, entered because the updated counters
  are equal. For a group without a tooltip whose completion is the manager's
  \<^verbatim>\<open>removeGroup\<close>, with the manager's lock free, \<^verbatim>\<open>dispose\<close> raises none: the calls
  stop fatally exactly under the conditions above, and an \<^verbatim>\<open>Add\<close> that returns leaves
  a non-negative \<^verbatim>\<open>refs\<close>.
\<close>

theorem Add_ignore_fatal_conditions:
  assumes "heap w g = Some gr"
  shows "(removed gr \<longrightarrow>
            Add ext g d w = Inl AddOnRemoved \<and> ignore ext g d w = Inl IgnoreOnRemoved) \<and>
         (\<not> removed gr \<and> sint (refs gr + d) < 0 \<longrightarrow> Add ext g d w = Inl NegativeRefs) \<and>
         (\<not> removed gr \<and> sint (ignored gr + d) < 0 \<longrightarrow> ignore ext g d w = Inl NegativeIgnored) \<and>
         (\<forall>e. Add ext g d w = Inl e \<longrightarrow>
            removed gr \<or> sint (refs gr + d) < 0 \<or>
            (refs gr + d - ignored gr = 0 \<and>
             dispose ext g (putGroup g (gr\<lparr>refs := refs gr + d\<rparr>) w) = Inl e)) \<and>
         (\<forall>e. ignore ext g d w = Inl e \<longrightarrow>
            removed gr \<or> sint (ignored gr + d) < 0 \<or>
            (refs gr - (ignored gr + d) = 0 \<and>
             dispose ext g (putGroup g (gr\<lparr>ignored := ignored gr + d\<rparr>) w) = Inl e)) \<and>
         (toolTip gr = None \<and> completion gr = Some wgm_removeGroup \<and> mutex (wgm w) = freeRWMutex \<longrightarrow>
            ((\<exists>e. Add ext g d w = Inl e) \<longleftrightarrow> removed gr \<or> sint (refs gr + d) < 0) \<and>
            ((\<exists>e. ignore ext g d w = Inl e) \<longleftrightarrow> removed gr \<or> sint (ignored gr + d) < 0) \<and>
            (\<forall>w'. Add ext g d w = Inr w' \<longrightarrow>
               (\<exists>gr'. heap w' g = Some gr' \<and> refs gr' = refs gr + d \<and> 0 \<le> sint (refs gr'))))"
proof -
  have a: "removed gr \<longrightarrow>
            Add ext g d w = Inl AddOnRemoved \<and> ignore ext g d w = Inl IgnoreOnRemoved"
    using assms by (simp add: Add_removed ignore_removed)
  have b: "\<not> removed gr \<and> sint (refs gr + d) < 0 \<longrightarrow> Add ext g d w = Inl NegativeRefs"
    using assms by (simp add: Add_negative)
  have c: "\<not> removed gr \<and> sint (ignored gr + d) < 0 \<longrightarrow> ignore ext g d w = Inl NegativeIgnored"
    using assms by (simp add: ignore_negative)
  have d: "\<forall>e. Add ext g d w = Inl e \<longrightarrow>
            removed gr \<or> sint (refs gr + d) < 0 \<or>
            (refs gr + d - ignored gr = 0 \<and>
             dispose ext g (putGroup g (gr\<lparr>refs := refs gr + d\<rparr>) w) = Inl e)"
    using assms by (auto simp: Add_def Let_def split: if_splits)
  have e: "\<forall>e. ignore ext g d w = Inl e \<longrightarrow>
            removed gr \<or> sint (ignored gr + d) < 0 \<or>
            (refs gr - (ignored gr + d) = 0 \<and>
             dispose ext g (putGroup g (gr\<lparr>ignored := ignored gr + d\<rparr>) w) = Inl e)"
    using assms by (auto simp: ignore_def Let_def split: if_splits)
  have f: "((\<exists>e. Add ext g d w = Inl e) \<longleftrightarrow> removed gr \<or> sint (refs gr + d) < 0) \<and>
            ((\<exists>e. ignore ext g d w = Inl e) \<longleftrightarrow> removed gr \<or> sint (ignored gr + d) < 0) \<and>
            (\<forall>w'. Add ext g d w = Inr w' \<longrightarrow>
               (\<exists>gr'. heap w' g = Some gr' \<and> refs gr' = refs gr + d \<and> 0 \<le> sint (refs gr')))"
    if tt: "toolTip gr = None" and co: "completion gr = Some wgm_removeGroup"
      and mu: "mutex (wgm w) = freeRWMutex"
  proof -
    have dA: "\<exists>w'. dispose ext g (putGroup g (gr\<lparr>refs := refs gr + d\<rparr>) w) = Inr w' \<and>
                (\<exists>gr'. heap w' g = Some gr' \<and> refs gr' = refs gr + d)"
      using tt co mu
      by (subst dispose_no_toolTip_removeGroup [where gr = "gr\<lparr>refs := refs gr + d\<rparr>"])
         (simp_all add: putGroup_def)
    have dI: "\<exists>w'. dispose ext g (putGroup g (gr\<lparr>ignored := ignored gr + d\<rparr>) w) = Inr w'"
      using tt co mu
      by (subst dispose_no_toolTip_removeGroup [where gr = "gr\<lparr>ignored := ignored gr + d\<rparr>"])
         (simp_all add: putGroup_def)
    have 1: "(\<exists>e. Add ext g d w = Inl e) \<longleftrightarrow> removed gr \<or> sint (refs gr + d) < 0"
      using assms dA by (auto simp: Add_def Let_def)
    have 2: "(\<exists>e. ignore ext g d w = Inl e) \<longleftrightarrow> removed gr \<or> sint (ignored gr + d) < 0"
      using assms dI by (auto simp: ignore_def Let_def)
    have 3: "\<forall>w'. Add ext g d w = Inr w' \<longrightarrow>
               (\<exists>gr'. heap w' g = Some gr' \<and> refs gr' = refs gr + d \<and> 0 \<le> sint (refs gr'))"
      using assms dA by (auto simp: Add_def Let_def putGroup_def split: if_splits)
    from 1 2 3 show ?thesis by blast
  qed
  from a b c d e f show ?thesis by blast
qed

theorem Add_ignore_fatal_conditions_witness:
  "heap (exWorld 1 0 None []) 0 = Some (exGroup 1 0 None []) \<and>
   \<not> removed (exGroup 1 0 None []) \<and>
   sint (refs (exGroup 1 0 None []) + (- 2)) < 0 \<and>
   sint (ignored (exGroup 1 0 None []) + (- 2)) < 0 \<and>
   Add inertExternals 0 (- 2) (exWorld 1 0 None []) = Inl NegativeRefs \<and>
   ignore inertExternals 0 (- 2) (exWorld 1 0 None []) = Inl NegativeIgnored \<and>
   heap (putGroup 0 ((exGroup 1 0 None [])\<lparr>removed := True\<rparr>) freshWorld) 0
     = Some ((exGroup 1 0 None [])\<lparr>removed := True\<rparr>) \<and>
   Add inertExternals 0 1 (putGroup 0 ((exGroup 1 0 None [])\<lparr>removed := True\<rparr>) freshWorld)
     = Inl AddOnRemoved \<and>
   ignore inertExternals 0 1 (putGroup 0 ((exGroup 1 0 None [])\<lparr>removed := True\<rparr>) freshWorld)
     = Inl IgnoreOnRemoved \<and>
   (\<forall>e. Add inertExternals 0 1 (exWorld 1 0 None []) \<noteq> Inl e)"
proof -
  have h1: "heap (exWorld 1 0 None []) 0 = Some (exGroup 1 0 None [])"
    by (simp add: exWorld_def)
  have h2: "heap (putGroup 0 ((exGroup 1 0 None [])\<lparr>removed := True\<rparr>) freshWorld) 0
     = Some ((exGroup 1 0 None [])\<lparr>removed := True\<rparr>)"
    by (simp add: putGroup_def)
  have p: "\<not> removed (exGroup 1 0 None [])" "toolTip (exGroup 1 0 None []) = None"
    "completion (exGroup 1 0 None []) = Some wgm_removeGroup"
    "mutex (wgm (exWorld 1 0 None [])) = freeRWMutex"
    "sint (refs (exGroup 1 0 None []) + (- 2)) < 0"
    "sint (ignored (exGroup 1 0 None []) + (- 2)) < 0"
    "\<not> sint (refs (exGroup 1 0 None []) + 1) < 0"
    by (simp_all add: exGroup_def exWorld_def newWindowGroup_def)
  from Add_ignore_fatal_conditions [OF h1, of inertExternals "- 2"]
       Add_ignore_fatal_conditions [OF h1, of inertExternals 1]
       Add_ignore_fatal_conditions [OF h2, of inertExternals 1] h1 h2 p
  show ?thesis by simp
qed

text \<open>
  C6 as stated fails: \<^verbatim>\<open>ignore(-1)\<close> on a new group, not removed, stops fatally with
  "negative WindowGroup ignored counter", a condition that is neither of the two the
  claim lists.
\<close>

theorem ignore_negative_counterexample:
  "heap freshWorld 0 = Some (newWindowGroup 7 (Some wgm_removeGroup)) \<and>
   removed (newWindowGroup 7 (Some wgm_removeGroup)) = False \<and>
   ignore inertExternals 0 (- 1) freshWorld = Inl NegativeIgnored"
  by (simp add: freshWorld_def newWindowGroup_def ignore_def)

section \<open>Disposal is triggered by liveness exactly zero\<close>

text \<open>
  C9. For every WindowGroup that is not removed, an \<^verbatim>\<open>Add\<close> (an \<^verbatim>\<open>ignore\<close>) whose
  updated counter is not negative enters \<^verbatim>\<open>dispose\<close> if and only if the updated
  counters satisfy \<^verbatim>\<open>refs - ignored == 0\<close>; otherwise it returns with only the counter
  changed. In particular a call that takes liveness from positive to negative while
  \<^verbatim>\<open>refs\<close> stays non-negative returns normally: no disposal, no fatal stop, the
  manager untouched, so a registered group stays registered with negative liveness
  (\<^verbatim>\<open>refs = 3\<close>, \<^verbatim>\<open>ignored = 2\<close>, \<^verbatim>\<open>Add(-2)\<close> in the witness).
\<close>

theorem dispose_iff_liveness_exactly_zero:
  assumes "heap w g = Some gr" and "\<not> removed gr"
  shows "(0 \<le> sint (refs gr + d) \<longrightarrow>
            Add ext g d w =
              (if liveness (gr\<lparr>refs := refs gr + d\<rparr>) = 0
               then dispose ext g (putGroup g (gr\<lparr>refs := refs gr + d\<rparr>) w)
               else Inr (putGroup g (gr\<lparr>refs := refs gr + d\<rparr>) w))) \<and>
         (0 \<le> sint (ignored gr + d) \<longrightarrow>
            ignore ext g d w =
              (if liveness (gr\<lparr>ignored := ignored gr + d\<rparr>) = 0
               then dispose ext g (putGroup g (gr\<lparr>ignored := ignored gr + d\<rparr>) w)
               else Inr (putGroup g (gr\<lparr>ignored := ignored gr + d\<rparr>) w))) \<and>
         (0 \<le> sint (refs gr + d) \<and> 0 < sint (liveness gr) \<and>
          sint (liveness (gr\<lparr>refs := refs gr + d\<rparr>)) < 0 \<longrightarrow>
            (\<exists>w'. Add ext g d w = Inr w' \<and>
                   heap w' g = Some (gr\<lparr>refs := refs gr + d\<rparr>) \<and>
                   \<not> removed (gr\<lparr>refs := refs gr + d\<rparr>) \<and>
                   disposals g w' = disposals g w \<and> events w' = events w \<and> wgm w' = wgm w))"
proof -
  have neg: "liveness (gr\<lparr>refs := refs gr + d\<rparr>) \<noteq> 0"
    if "sint (liveness (gr\<lparr>refs := refs gr + d\<rparr>)) < 0"
    using that by auto
  show ?thesis
    using assms neg
    by (auto simp: Add_live ignore_live liveness_def putGroup_def disposals_def)
qed

theorem dispose_iff_liveness_exactly_zero_witness:
  "heap (exWorld 3 2 None []) 0 = Some (exGroup 3 2 None []) \<and>
   \<not> removed (exGroup 3 2 None []) \<and>
   0 \<le> sint (refs (exGroup 3 2 None []) + (- 2)) \<and>
   0 \<le> sint (ignored (exGroup 3 2 None []) + (- 2)) \<and>
   0 < sint (liveness (exGroup 3 2 None [])) \<and>
   sint (liveness ((exGroup 3 2 None [])\<lparr>refs := refs (exGroup 3 2 None []) + (- 2)\<rparr>)) = - 1 \<and>
   (\<exists>w'. Add inertExternals 0 (- 2) (exWorld 3 2 None []) = Inr w' \<and>
          map_option refs (heap w' 0) = Some 1 \<and> map_option ignored (heap w' 0) = Some 2 \<and>
          map_option removed (heap w' 0) = Some False \<and>
          lookupGroup (wgm w') 7 = Some 0 \<and> events w' = [])"
proof -
  have h: "heap (exWorld 3 2 None []) 0 = Some (exGroup 3 2 None [])"
    by (simp add: exWorld_def)
  have p: "\<not> removed (exGroup 3 2 None [])"
    "0 \<le> sint (refs (exGroup 3 2 None []) + (- 2))"
    "0 \<le> sint (ignored (exGroup 3 2 None []) + (- 2))"
    "0 < sint (liveness (exGroup 3 2 None []))"
    "sint (liveness ((exGroup 3 2 None [])\<lparr>refs := refs (exGroup 3 2 None []) + (- 2)\<rparr>)) = - 1"
    by (simp_all add: exGroup_def newWindowGroup_def liveness_def)
  have q: "lookupGroup (wgm (exWorld 3 2 None [])) 7 = Some 0" "events (exWorld 3 2 None []) = []"
    "refs (exGroup 3 2 None []) + (- 2) = 1" "ignored (exGroup 3 2 None []) = 2"
    by (simp_all add: exWorld_def exGroup_def lookupGroup_def)
  from dispose_iff_liveness_exactly_zero [OF h p(1), of "- 2" inertExternals] h p q
  show ?thesis by auto
qed

section \<open>Sequences of Add and Done on a new group\<close>

lemma sint_nonneg_nonzero: "0 \<le> sint (x::go_int) \<Longrightarrow> x \<noteq> 0 \<Longrightarrow> 0 < sint x"
  by (metis order_le_less signed_eq_0_iff)

text \<open>One \<^verbatim>\<open>Add\<close> on a live group that has no tooltip and ignores nothing.\<close>

lemma Add_plain_step:
  assumes h: "heap w g = Some gr" and ig: "ignored gr = 0" and tt: "toolTip gr = None"
    and nr: "\<not> removed gr" and run: "Add ext g d w = Inr w'"
    and co: "completion gr = Some wgm_removeGroup"
  shows "\<exists>gr'. heap w' g = Some gr' \<and> ignored gr' = 0 \<and> toolTip gr' = None \<and>
           completion gr' = Some wgm_removeGroup \<and>
           0 \<le> sint (refs gr') \<and> removed gr' = (refs gr' = 0) \<and>
           disposals g w' = disposals g w + (if refs gr' = 0 then 1 else 0)"
proof -
  let ?gr1 = "gr\<lparr>refs := refs gr + d\<rparr>"
  let ?w1 = "putGroup g ?gr1 w"
  from run h nr have nonneg: "0 \<le> sint (refs gr + d)"
    by (auto simp: Add_def Let_def split: if_splits)
  show ?thesis
  proof (cases "refs gr + d = 0")
    case False
    with run h nr ig nonneg have "w' = ?w1"
      by (simp add: Add_live)
    with False h ig tt nr nonneg co show ?thesis
      by (simp add: putGroup_def disposals_def)
  next
    case True
    with run h nr ig nonneg have d: "dispose ext g ?w1 = Inr w'"
      by (simp add: Add_live)
    have h1: "heap ?w1 g = Some ?gr1" by (simp add: putGroup_def)
    from d obtain m where "w' = ?w1\<lparr>heap := (heap ?w1)(g \<mapsto> ?gr1\<lparr>removed := True\<rparr>),
        events := events ?w1 @ [EvDispose g, EvCompletion (threadID ?gr1)], wgm := m\<rparr>"
      using dispose_no_toolTip [OF h1, of ext] tt co
      by (auto simp: runCompletion_def bindR_eq_Inr)
    with True ig tt co show ?thesis
      by (simp add: putGroup_def disposals_def)
  qed
qed

lemma applyRefCall_plain_step:
  assumes "heap w g = Some gr" "ignored gr = 0" "toolTip gr = None" "\<not> removed gr"
    "applyRefCall ext g c w = Inr w'" "completion gr = Some wgm_removeGroup"
  shows "\<exists>gr'. heap w' g = Some gr' \<and> ignored gr' = 0 \<and> toolTip gr' = None \<and>
           completion gr' = Some wgm_removeGroup \<and>
           0 \<le> sint (refs gr') \<and> removed gr' = (refs gr' = 0) \<and>
           disposals g w' = disposals g w + (if refs gr' = 0 then 1 else 0)"
  using assms Add_plain_step by (cases c) (auto simp: Done_def)

lemma applyRefCall_removed:
  "heap w g = Some gr \<Longrightarrow> removed gr \<Longrightarrow> applyRefCall ext g c w = Inl AddOnRemoved"
  by (cases c) (simp_all add: Done_def Add_removed)

lemma runRefCalls_plain:
  assumes "heap w g = Some gr" "ignored gr = 0" "toolTip gr = None" "\<not> removed gr"
    "runRefCalls ext g cs w = Inr w'" "cs \<noteq> []" "completion gr = Some wgm_removeGroup"
  shows "\<exists>gr'. heap w' g = Some gr' \<and> ignored gr' = 0 \<and>
           0 \<le> sint (refs gr') \<and> removed gr' = (refs gr' = 0) \<and>
           disposals g w' = disposals g w + (if refs gr' = 0 then 1 else 0) \<and>
           (\<forall>n. 0 < n \<and> n < length cs \<longrightarrow>
              (\<exists>wn grn. runRefCalls ext g (take n cs) w = Inr wn \<and> heap wn g = Some grn \<and>
                 0 < sint (refs grn) \<and> ignored grn = 0 \<and> \<not> removed grn \<and>
                 disposals g wn = disposals g w))"
  using assms
proof (induction cs arbitrary: w gr)
  case Nil
  then show ?case by simp
next
  case (Cons c cs)
  from Cons.prems(5) obtain w1 where s1: "applyRefCall ext g c w = Inr w1"
    and r1: "runRefCalls ext g cs w1 = Inr w'"
    by (auto simp: bindR_eq_Inr)
  from applyRefCall_plain_step [OF Cons.prems(1-4) s1 Cons.prems(7)]
  obtain gr1 where g1: "heap w1 g = Some gr1" "ignored gr1 = 0" "toolTip gr1 = None"
      "0 \<le> sint (refs gr1)" "removed gr1 = (refs gr1 = 0)"
      "disposals g w1 = disposals g w + (if refs gr1 = 0 then 1 else 0)"
      "completion gr1 = Some wgm_removeGroup"
    by blast
  show ?case
  proof (cases cs)
    case Nil
    with r1 g1 show ?thesis by simp
  next
    case (Cons c' cs')
    have nr1: "\<not> removed gr1"
    proof
      assume "removed gr1"
      then have "runRefCalls ext g cs w1 = Inl AddOnRemoved"
        using Cons g1(1) by (simp add: applyRefCall_removed)
      with r1 show False by simp
    qed
    then have nz: "refs gr1 \<noteq> 0" and d1: "disposals g w1 = disposals g w"
      using g1 by auto
    have pos: "0 < sint (refs gr1)" using g1(4) nz by (rule sint_nonneg_nonzero)
    from Cons have ne: "cs \<noteq> []" by simp
    from Cons.IH [OF g1(1) g1(2) g1(3) nr1 r1 ne g1(7)]
    obtain gr' where fin: "heap w' g = Some gr'" "ignored gr' = 0" "0 \<le> sint (refs gr')"
        "removed gr' = (refs gr' = 0)"
        "disposals g w' = disposals g w1 + (if refs gr' = 0 then 1 else 0)"
      and mid: "\<forall>n. 0 < n \<and> n < length cs \<longrightarrow>
              (\<exists>wn grn. runRefCalls ext g (take n cs) w1 = Inr wn \<and> heap wn g = Some grn \<and>
                 0 < sint (refs grn) \<and> ignored grn = 0 \<and> \<not> removed grn \<and>
                 disposals g wn = disposals g w1)"
      by blast
    have "\<exists>wn grn. runRefCalls ext g (take n (c # cs)) w = Inr wn \<and> heap wn g = Some grn \<and>
                 0 < sint (refs grn) \<and> ignored grn = 0 \<and> \<not> removed grn \<and>
                 disposals g wn = disposals g w"
      if n: "0 < n" "n < length (c # cs)" for n
    proof (cases n)
      case 0
      with n show ?thesis by simp
    next
      case (Suc k)
      show ?thesis
      proof (cases k)
        case 0
        with Suc s1 g1 nr1 pos d1 show ?thesis by simp
      next
        case (Suc j)
        with \<open>n = Suc k\<close> n have "0 < k \<and> k < length cs" by simp
        with mid obtain wn grn where "runRefCalls ext g (take k cs) w1 = Inr wn"
            "heap wn g = Some grn" "0 < sint (refs grn)" "ignored grn = 0" "\<not> removed grn"
            "disposals g wn = disposals g w1"
          by blast
        with \<open>n = Suc k\<close> s1 d1 show ?thesis by simp
      qed
    qed
    with fin d1 show ?thesis by simp
  qed
qed

text \<open>
  C1. For every sequence of \<^verbatim>\<open>Add\<close> and \<^verbatim>\<open>Done\<close> calls on a new group (zero
  references, made with the manager's \<^verbatim>\<open>removeGroup\<close> as completion), as far as the
  calls return: liveness \<^verbatim>\<open>refs - ignored\<close> is never negative; \<^verbatim>\<open>dispose\<close> is entered
  by the call after which liveness is zero and by no other, so at most once, and before
  that call liveness is positive and the group is not removed; after that call the
  group is marked removed, and every further \<^verbatim>\<open>Add\<close>, \<^verbatim>\<open>Done\<close> or \<^verbatim>\<open>ignore\<close>
  stops fatally without changing a counter.
\<close>

theorem fresh_group_Add_Done_lifecycle:
  assumes fresh: "heap w g = Some (newWindowGroup tid (Some wgm_removeGroup))"
    and run: "runRefCalls ext g cs w = Inr w'"
    and calls: "cs \<noteq> []"
  shows "\<exists>gr'. heap w' g = Some gr' \<and>
           0 \<le> sint (liveness gr') \<and>
           removed gr' = (liveness gr' = 0) \<and>
           disposals g w' = disposals g w + (if liveness gr' = 0 then 1 else 0) \<and>
           (\<forall>n. 0 < n \<and> n < length cs \<longrightarrow>
              (\<exists>wn grn. runRefCalls ext g (take n cs) w = Inr wn \<and> heap wn g = Some grn \<and>
                 0 < sint (liveness grn) \<and> \<not> removed grn \<and> disposals g wn = disposals g w)) \<and>
           (removed gr' \<longrightarrow>
              (\<forall>d. Add ext g d w' = Inl AddOnRemoved \<and> ignore ext g d w' = Inl IgnoreOnRemoved) \<and>
              Done ext g w' = Inl AddOnRemoved)"
proof -
  let ?gr = "newWindowGroup tid (Some wgm_removeGroup)"
  have p: "ignored ?gr = 0" "toolTip ?gr = None" "\<not> removed ?gr"
    "completion ?gr = Some wgm_removeGroup"
    by (simp_all add: newWindowGroup_def)
  from runRefCalls_plain [OF fresh p(1) p(2) p(3) run calls p(4)]
  obtain gr' where fin: "heap w' g = Some gr'" "ignored gr' = 0" "0 \<le> sint (refs gr')"
      "removed gr' = (refs gr' = 0)"
      "disposals g w' = disposals g w + (if refs gr' = 0 then 1 else 0)"
    and mid: "\<forall>n. 0 < n \<and> n < length cs \<longrightarrow>
              (\<exists>wn grn. runRefCalls ext g (take n cs) w = Inr wn \<and> heap wn g = Some grn \<and>
                 0 < sint (refs grn) \<and> ignored grn = 0 \<and> \<not> removed grn \<and>
                 disposals g wn = disposals g w)"
    by blast
  have live: "liveness gr' = refs gr'" using fin(2) by (simp add: liveness_def)
  have mid': "\<forall>n. 0 < n \<and> n < length cs \<longrightarrow>
              (\<exists>wn grn. runRefCalls ext g (take n cs) w = Inr wn \<and> heap wn g = Some grn \<and>
                 0 < sint (liveness grn) \<and> \<not> removed grn \<and> disposals g wn = disposals g w)"
  proof (intro allI impI)
    fix n assume "0 < n \<and> n < length cs"
    with mid obtain wn grn where "runRefCalls ext g (take n cs) w = Inr wn" "heap wn g = Some grn"
        "0 < sint (refs grn)" "ignored grn = 0" "\<not> removed grn" "disposals g wn = disposals g w"
      by blast
    then show "\<exists>wn grn. runRefCalls ext g (take n cs) w = Inr wn \<and> heap wn g = Some grn \<and>
                 0 < sint (liveness grn) \<and> \<not> removed grn \<and> disposals g wn = disposals g w"
      by (auto simp: liveness_def)
  qed
  have after: "removed gr' \<longrightarrow>
              (\<forall>d. Add ext g d w' = Inl AddOnRemoved \<and> ignore ext g d w' = Inl IgnoreOnRemoved) \<and>
              Done ext g w' = Inl AddOnRemoved"
    using fin(1) by (simp add: Add_removed ignore_removed Done_def)
  from fin live mid' after show ?thesis by simp
qed

theorem fresh_group_Add_Done_lifecycle_witness:
  "heap freshWorld 0 = Some (newWindowGroup 7 (Some wgm_removeGroup)) \<and>
   (\<exists>w'. runRefCalls inertExternals 0 [CallAdd 2, CallDone, CallDone] freshWorld = Inr w' \<and>
      (\<exists>gr'. heap w' 0 = Some gr' \<and> liveness gr' = 0 \<and> removed gr' \<and>
         disposals 0 w' = 1 \<and> Done inertExternals 0 w' = Inl AddOnRemoved) \<and>
      (\<exists>w1 gr1. runRefCalls inertExternals 0 [CallAdd 2] freshWorld = Inr w1 \<and>
         heap w1 0 = Some gr1 \<and> 0 < sint (liveness gr1) \<and> \<not> removed gr1 \<and> disposals 0 w1 = 0))"
proof -
  let ?cs = "[CallAdd 2, CallDone, CallDone]"
  have f: "heap freshWorld 0 = Some (newWindowGroup 7 (Some wgm_removeGroup))"
    by (simp add: freshWorld_def)
  obtain w' where r: "runRefCalls inertExternals 0 ?cs freshWorld = Inr w'"
    and l: "map_option liveness (heap w' 0) = Some 0"
    by (simp add: run_defs example_defs Let_def)
  have d0: "disposals 0 freshWorld = 0" by (simp add: disposals_def freshWorld_def)
  have ne: "?cs \<noteq> []" by simp
  from fresh_group_Add_Done_lifecycle [OF f r ne]
  obtain gr' where g: "heap w' 0 = Some gr'" "removed gr' = (liveness gr' = 0)"
      "disposals 0 w' = disposals 0 freshWorld + (if liveness gr' = 0 then 1 else 0)"
    and mid: "\<forall>n. 0 < n \<and> n < length ?cs \<longrightarrow>
              (\<exists>wn grn. runRefCalls inertExternals 0 (take n ?cs) freshWorld = Inr wn \<and>
                 heap wn 0 = Some grn \<and> 0 < sint (liveness grn) \<and> \<not> removed grn \<and>
                 disposals 0 wn = disposals 0 freshWorld)"
    and aft: "removed gr' \<longrightarrow>
              (\<forall>d. Add inertExternals 0 d w' = Inl AddOnRemoved \<and>
                   ignore inertExternals 0 d w' = Inl IgnoreOnRemoved) \<and>
              Done inertExternals 0 w' = Inl AddOnRemoved"
    by blast
  from g(1) l have z: "liveness gr' = 0" by simp
  with g aft d0 have fin: "heap w' 0 = Some gr' \<and> liveness gr' = 0 \<and> removed gr' \<and>
         disposals 0 w' = 1 \<and> Done inertExternals 0 w' = Inl AddOnRemoved"
    by simp
  from mid have "0 < (1::nat) \<and> 1 < length ?cs \<longrightarrow>
              (\<exists>wn grn. runRefCalls inertExternals 0 (take 1 ?cs) freshWorld = Inr wn \<and>
                 heap wn 0 = Some grn \<and> 0 < sint (liveness grn) \<and> \<not> removed grn \<and>
                 disposals 0 wn = disposals 0 freshWorld)"
    by (rule spec)
  with d0 have first: "\<exists>w1 gr1. runRefCalls inertExternals 0 [CallAdd 2] freshWorld = Inr w1 \<and>
         heap w1 0 = Some gr1 \<and> 0 < sint (liveness gr1) \<and> \<not> removed gr1 \<and> disposals 0 w1 = 0"
    by simp
  from f r fin first show ?thesis by blast
qed

section \<open>The synchronized queue\<close>

lemma bindR_assoc: "bindR (bindR m f) k = bindR m (\<lambda>x. bindR (f x) k)"
  by (cases m) simp_all

lemma syncMutex_False_id: "\<not> syncMutex gr \<Longrightarrow> gr\<lparr>syncMutex := False\<rparr> = gr"
  by simp

lemma Synchronize_free:
  assumes "heap w g = Some gr" "\<not> syncMutex gr"
  shows "Synchronize g f w = Inr (putGroup g (gr\<lparr>syncFuncs := syncFuncs gr @ [f]\<rparr>) w)"
  using assms
  by (simp add: Synchronize_def syncMutex_Lock_def syncMutex_Unlock_def Mutex_Lock_def
      Mutex_Unlock_def modifyGroup_def putGroup_def syncMutex_False_id)

lemma SynchronizeLayout_free:
  assumes "heap w g = Some gr" "\<not> syncMutex gr"
  shows "SynchronizeLayout g rs sw w =
           Inr (putGroup g (gr\<lparr>layoutResults := rs, layoutStopwatch := sw\<rparr>) w)"
  using assms
  by (simp add: SynchronizeLayout_def syncMutex_Lock_def syncMutex_Unlock_def Mutex_Lock_def
      Mutex_Unlock_def modifyGroup_def putGroup_def syncMutex_False_id)

lemma RunSynchronized_free:
  assumes "heap w g = Some gr" "\<not> syncMutex gr"
  shows "RunSynchronized ext g w =
           bindR (if layoutResults gr \<noteq> []
                  then applyLayoutResults ext (layoutResults gr) (layoutStopwatch gr)
                         (logEvent (EvApplyLayout (layoutResults gr) (layoutStopwatch gr))
                            (putGroup g (drained gr) w))
                  else Inr (putGroup g (drained gr) w))
             (runFuncs ext (syncFuncs gr))"
  using assms
  by (simp add: RunSynchronized_def syncMutex_Lock_def syncMutex_Unlock_def Mutex_Lock_def
      Mutex_Unlock_def modifyGroup_def putGroup_def drained_def Let_def syncMutex_False_id)

lemma RunSynchronized_held:
  "heap w g = Some gr \<Longrightarrow> syncMutex gr \<Longrightarrow> RunSynchronized ext g w = Inl Blocked"
  by (simp add: RunSynchronized_def syncMutex_Lock_def Mutex_Lock_def)

lemma bindR_Inr_right: "bindR m Inr = m"
  by (cases m) simp_all

lemma runFuncs_Nil_fun: "runFuncs ext [] = Inr"
  by (intro ext) simp

lemma runFuncs_Cons_fun:
  "runFuncs ext (f # fs) = (\<lambda>w. bindR (callFunc ext f (logEvent (EvCall f) w)) (runFuncs ext fs))"
  by (intro ext) simp

lemma runFuncs_append:
  "runFuncs ext (xs @ ys) w = bindR (runFuncs ext xs w) (runFuncs ext ys)"
proof (induction xs arbitrary: w)
  case Nil
  show ?case by simp
next
  case (Cons a xs)
  show ?case
    by (cases "callFunc ext a (logEvent (EvCall a) w)") (simp_all add: Cons.IH)
qed

text \<open>
  Queued functions that return at once (\<open>nxt f = None\<close>) or whose body is
  \<^verbatim>\<open>g.Synchronize(f')\<close> (\<open>nxt f = Some f'\<close>): running a list of them calls each once, in
  order, and appends what they enqueue to the group's queue.
\<close>

lemma runFuncs_enqueuers:
  assumes "\<forall>f\<in>set fs. callFunc ext f = (case nxt f of None \<Rightarrow> Inr | Some f' \<Rightarrow> Synchronize g f')"
    and "heap v g = Some grv" and "\<not> syncMutex grv"
  shows "runFuncs ext fs v =
           Inr (v\<lparr>heap := (heap v)(g \<mapsto> grv\<lparr>syncFuncs := syncFuncs grv @ List.map_filter nxt fs\<rparr>),
                  events := events v @ map EvCall fs\<rparr>)"
  using assms
proof (induction fs arbitrary: v grv)
  case Nil
  then show ?case by (simp add: map_upd_triv map_filter_simps)
next
  case (Cons f fs)
  let ?v = "logEvent (EvCall f) v"
  have hv: "heap ?v g = Some grv" using Cons.prems(2) by (simp add: logEvent_def)
  from Cons.prems(1) have rest:
    "\<forall>f\<in>set fs. callFunc ext f = (case nxt f of None \<Rightarrow> Inr | Some f' \<Rightarrow> Synchronize g f')"
    and body: "callFunc ext f = (case nxt f of None \<Rightarrow> Inr | Some f' \<Rightarrow> Synchronize g f')"
    by simp_all
  show ?case
  proof (cases "nxt f")
    case None
    with body have "callFunc ext f ?v = Inr ?v" by simp
    then have "runFuncs ext (f # fs) v = runFuncs ext fs ?v" by simp
    also have "\<dots> = Inr (?v\<lparr>heap := (heap ?v)(g \<mapsto> grv\<lparr>syncFuncs := syncFuncs grv @ List.map_filter nxt fs\<rparr>),
                  events := events ?v @ map EvCall fs\<rparr>)"
      using Cons.IH [OF rest hv Cons.prems(3)] .
    finally have "runFuncs ext (f # fs) v =
        Inr (?v\<lparr>heap := (heap ?v)(g \<mapsto> grv\<lparr>syncFuncs := syncFuncs grv @ List.map_filter nxt fs\<rparr>),
                  events := events ?v @ map EvCall fs\<rparr>)" .
    moreover have "List.map_filter nxt (f # fs) = List.map_filter nxt fs"
      using None by (simp add: map_filter_simps)
    ultimately show ?thesis
      by (simp add: logEvent_def del: fun_upd_apply)
  next
    case (Some f')
    let ?gr1 = "grv\<lparr>syncFuncs := syncFuncs grv @ [f']\<rparr>"
    let ?v1 = "putGroup g ?gr1 ?v"
    from body Some have "callFunc ext f ?v = Inr ?v1"
      using Synchronize_free [OF hv Cons.prems(3)] by simp
    then have "runFuncs ext (f # fs) v = runFuncs ext fs ?v1" by simp
    also have "\<dots> = Inr (?v1\<lparr>heap := (heap ?v1)(g \<mapsto> ?gr1\<lparr>syncFuncs := syncFuncs ?gr1 @ List.map_filter nxt fs\<rparr>),
                  events := events ?v1 @ map EvCall fs\<rparr>)"
    proof -
      have h1: "heap ?v1 g = Some ?gr1" by (simp add: putGroup_def)
      have m1: "\<not> syncMutex ?gr1" using Cons.prems(3) by simp
      from Cons.IH [OF rest h1 m1] show ?thesis .
    qed
    finally have "runFuncs ext (f # fs) v =
        Inr (?v1\<lparr>heap := (heap ?v1)(g \<mapsto> ?gr1\<lparr>syncFuncs := syncFuncs ?gr1 @ List.map_filter nxt fs\<rparr>),
                  events := events ?v1 @ map EvCall fs\<rparr>)" .
    moreover have "List.map_filter nxt (f # fs) = f' # List.map_filter nxt fs"
      using Some by (simp add: map_filter_simps)
    ultimately show ?thesis
      by (simp add: logEvent_def putGroup_def del: fun_upd_apply)
  qed
qed

lemma Synchronize2_RunSynchronized_free:
  assumes h: "heap w g = Some gr" and free: "\<not> syncMutex gr"
  shows "Synchronize2_RunSynchronized ext g f1 f2 w =
           bindR (if layoutResults gr \<noteq> []
                  then applyLayoutResults ext (layoutResults gr) (layoutStopwatch gr)
                         (logEvent (EvApplyLayout (layoutResults gr) (layoutStopwatch gr))
                            (putGroup g (drained gr) w))
                  else Inr (putGroup g (drained gr) w))
             (runFuncs ext (syncFuncs gr @ [f1, f2]))"
proof -
  let ?g1 = "gr\<lparr>syncFuncs := syncFuncs gr @ [f1]\<rparr>"
  let ?g2 = "gr\<lparr>syncFuncs := syncFuncs gr @ [f1, f2]\<rparr>"
  have s1: "Synchronize g f1 w = Inr (putGroup g ?g1 w)"
    using h free by (rule Synchronize_free)
  have s2: "Synchronize g f2 (putGroup g ?g1 w) = Inr (putGroup g ?g2 w)"
    using free by (subst Synchronize_free [where gr = ?g1]) (simp_all add: putGroup_def)
  have r: "RunSynchronized ext g (putGroup g ?g2 w) =
           bindR (if layoutResults gr \<noteq> []
                  then applyLayoutResults ext (layoutResults gr) (layoutStopwatch gr)
                         (logEvent (EvApplyLayout (layoutResults gr) (layoutStopwatch gr))
                            (putGroup g (drained gr) w))
                  else Inr (putGroup g (drained gr) w))
             (runFuncs ext (syncFuncs gr @ [f1, f2]))"
    using free
    by (subst RunSynchronized_free [where gr = ?g2]) (simp_all add: putGroup_def drained_def)
  show ?thesis
    by (simp add: Synchronize2_RunSynchronized_def s1 s2 r)
qed

text \<open>
  C2 (amended). For every pair of callbacks \<^verbatim>\<open>f1\<close> and \<^verbatim>\<open>f2\<close> and every group whose
  queue lock is free, \<^verbatim>\<open>Synchronize(f1)\<close>, \<^verbatim>\<open>Synchronize(f2)\<close> and one
  \<^verbatim>\<open>RunSynchronized()\<close> run, after the pending layout batch and the callbacks queued
  earlier, \<^verbatim>\<open>f1\<close> and then \<^verbatim>\<open>f2\<close>, each once and \<^verbatim>\<open>f2\<close> only if \<^verbatim>\<open>f1\<close> returns. The
  queue is swapped out under the lock (a held lock blocks the drain) and is empty, the
  lock released, when the first callback starts. After the drain the queue holds exactly
  what the callbacks enqueued during it: nothing when they enqueue nothing, and not
  nothing otherwise.
\<close>

theorem Synchronize_order_and_queue_after_drain:
  assumes h: "heap w g = Some gr"
  shows "(syncMutex gr \<longrightarrow> RunSynchronized ext g w = Inl Blocked) \<and>
         (\<not> syncMutex gr \<longrightarrow>
            Synchronize2_RunSynchronized ext g f1 f2 w =
              bindR (if layoutResults gr \<noteq> []
                     then applyLayoutResults ext (layoutResults gr) (layoutStopwatch gr)
                            (logEvent (EvApplyLayout (layoutResults gr) (layoutStopwatch gr))
                               (putGroup g (drained gr) w))
                     else Inr (putGroup g (drained gr) w))
                (\<lambda>w0. bindR (runFuncs ext (syncFuncs gr) w0)
                (\<lambda>wa. bindR (callFunc ext f1 (logEvent (EvCall f1) wa))
                (\<lambda>wb. callFunc ext f2 (logEvent (EvCall f2) wb)))) \<and>
            syncFuncs (drained gr) = [] \<and> \<not> syncMutex (drained gr)) \<and>
         (\<not> syncMutex gr \<and> layoutResults gr = [] \<and>
          (\<forall>f\<in>set (syncFuncs gr @ [f1, f2]).
              callFunc ext f = (case nxt f of None \<Rightarrow> Inr | Some f' \<Rightarrow> Synchronize g f')) \<longrightarrow>
            Synchronize2_RunSynchronized ext g f1 f2 w =
              Inr (w\<lparr>heap := (heap w)(g \<mapsto> (drained gr)
                          \<lparr>syncFuncs := List.map_filter nxt (syncFuncs gr @ [f1, f2])\<rparr>),
                     events := events w @ map EvCall (syncFuncs gr @ [f1, f2])\<rparr>))"
proof (intro conjI impI)
  assume "syncMutex gr"
  with h show "RunSynchronized ext g w = Inl Blocked" by (rule RunSynchronized_held)
next
  assume free: "\<not> syncMutex gr"
  have "runFuncs ext (syncFuncs gr @ [f1, f2]) =
          (\<lambda>w0. bindR (runFuncs ext (syncFuncs gr) w0)
          (\<lambda>wa. bindR (callFunc ext f1 (logEvent (EvCall f1) wa))
          (\<lambda>wb. callFunc ext f2 (logEvent (EvCall f2) wb))))"
    by (intro ext)
       (simp add: runFuncs_append runFuncs_Cons_fun runFuncs_Nil_fun bindR_Inr_right)
  then show "Synchronize2_RunSynchronized ext g f1 f2 w =
              bindR (if layoutResults gr \<noteq> []
                     then applyLayoutResults ext (layoutResults gr) (layoutStopwatch gr)
                            (logEvent (EvApplyLayout (layoutResults gr) (layoutStopwatch gr))
                               (putGroup g (drained gr) w))
                     else Inr (putGroup g (drained gr) w))
                (\<lambda>w0. bindR (runFuncs ext (syncFuncs gr) w0)
                (\<lambda>wa. bindR (callFunc ext f1 (logEvent (EvCall f1) wa))
                (\<lambda>wb. callFunc ext f2 (logEvent (EvCall f2) wb))))"
    using Synchronize2_RunSynchronized_free [OF h free, of ext f1 f2] by simp
next
  show "syncFuncs (drained gr) = []" by (simp add: drained_def)
next
  assume "\<not> syncMutex gr"
  then show "\<not> syncMutex (drained gr)" by (simp add: drained_def)
next
  assume a: "\<not> syncMutex gr \<and> layoutResults gr = [] \<and>
          (\<forall>f\<in>set (syncFuncs gr @ [f1, f2]).
              callFunc ext f = (case nxt f of None \<Rightarrow> Inr | Some f' \<Rightarrow> Synchronize g f'))"
  let ?v = "putGroup g (drained gr) w"
  have hv: "heap ?v g = Some (drained gr)" by (simp add: putGroup_def)
  have fv: "\<not> syncMutex (drained gr)" using a by (simp add: drained_def)
  from a have bodies: "\<forall>f\<in>set (syncFuncs gr @ [f1, f2]).
              callFunc ext f = (case nxt f of None \<Rightarrow> Inr | Some f' \<Rightarrow> Synchronize g f')"
    by blast
  have "Synchronize2_RunSynchronized ext g f1 f2 w = runFuncs ext (syncFuncs gr @ [f1, f2]) ?v"
    using Synchronize2_RunSynchronized_free [OF h, of ext f1 f2] a by simp
  also have "\<dots> = Inr (?v\<lparr>heap := (heap ?v)(g \<mapsto> (drained gr)
                  \<lparr>syncFuncs := syncFuncs (drained gr) @ List.map_filter nxt (syncFuncs gr @ [f1, f2])\<rparr>),
                  events := events ?v @ map EvCall (syncFuncs gr @ [f1, f2])\<rparr>)"
    using bodies hv fv by (rule runFuncs_enqueuers)
  finally show "Synchronize2_RunSynchronized ext g f1 f2 w =
              Inr (w\<lparr>heap := (heap w)(g \<mapsto> (drained gr)
                          \<lparr>syncFuncs := List.map_filter nxt (syncFuncs gr @ [f1, f2])\<rparr>),
                     events := events w @ map EvCall (syncFuncs gr @ [f1, f2])\<rparr>)"
    by (simp add: putGroup_def drained_def)
qed

theorem Synchronize_order_and_queue_after_drain_witness:
  "heap (exWorld 1 0 None [5]) 0 = Some (exGroup 1 0 None [5]) \<and>
   \<not> syncMutex (exGroup 1 0 None [5]) \<and>
   layoutResults (exGroup 1 0 None [5]) = [] \<and>
   map_sum id events (Synchronize2_RunSynchronized inertExternals 0 2 3 (exWorld 1 0 None [5]))
     = Inr [EvCall 5, EvCall 2, EvCall 3] \<and>
   pendingAfter 0 (Synchronize2_RunSynchronized inertExternals 0 2 3 (exWorld 1 0 None [5]))
     = Some [] \<and>
   pendingAfter 0 (Synchronize2_RunSynchronized (requeueExternals 0) 0 2 3 (exWorld 1 0 None [5]))
     = Some [15, 12, 13] \<and>
   syncMutex ((exGroup 1 0 None [5])\<lparr>syncMutex := True\<rparr>) \<and>
   RunSynchronized inertExternals 0
     (putGroup 0 ((exGroup 1 0 None [5])\<lparr>syncMutex := True\<rparr>) freshWorld) = Inl Blocked"
proof -
  let ?G = "exGroup 1 0 None [5]"
  let ?W = "exWorld 1 0 None [5]"
  have h: "heap ?W 0 = Some ?G" by (simp add: exWorld_def)
  have p: "\<not> syncMutex ?G" "layoutResults ?G = []" "syncFuncs ?G = [5]"
    by (simp_all add: exGroup_def newWindowGroup_def)
  have b1: "\<forall>f\<in>set (syncFuncs ?G @ [2, 3]).
      callFunc inertExternals f = (case (\<lambda>f. None) f of None \<Rightarrow> Inr | Some f' \<Rightarrow> Synchronize 0 f')"
    by (simp add: inertExternals_def)
  have b2: "\<forall>f\<in>set (syncFuncs ?G @ [2, 3]).
      callFunc (requeueExternals 0) f =
        (case (\<lambda>f. Some (f + 10)) f of None \<Rightarrow> Inr | Some f' \<Rightarrow> Synchronize 0 f')"
    by (simp add: requeueExternals_def inertExternals_def)
  have h3: "heap (putGroup 0 (?G\<lparr>syncMutex := True\<rparr>) freshWorld) 0 = Some (?G\<lparr>syncMutex := True\<rparr>)"
    by (simp add: putGroup_def)
  from Synchronize_order_and_queue_after_drain [OF h, of inertExternals 2 3 "\<lambda>f. None"] p b1
  have r1: "Synchronize2_RunSynchronized inertExternals 0 2 3 ?W =
              Inr (?W\<lparr>heap := (heap ?W)(0 \<mapsto> (drained ?G)
                          \<lparr>syncFuncs := List.map_filter (\<lambda>f. None) (syncFuncs ?G @ [2, 3])\<rparr>),
                     events := events ?W @ map EvCall (syncFuncs ?G @ [2, 3])\<rparr>)"
    by blast
  from Synchronize_order_and_queue_after_drain [OF h, of "requeueExternals 0" 2 3 "\<lambda>f. Some (f + 10)"] p b2
  have r2: "Synchronize2_RunSynchronized (requeueExternals 0) 0 2 3 ?W =
              Inr (?W\<lparr>heap := (heap ?W)(0 \<mapsto> (drained ?G)
                          \<lparr>syncFuncs := List.map_filter (\<lambda>f. Some (f + 10)) (syncFuncs ?G @ [2, 3])\<rparr>),
                     events := events ?W @ map EvCall (syncFuncs ?G @ [2, 3])\<rparr>)"
    by blast
  from Synchronize_order_and_queue_after_drain [OF h3, of inertExternals 2 3 "\<lambda>f. None"]
  have r3: "RunSynchronized inertExternals 0
     (putGroup 0 (?G\<lparr>syncMutex := True\<rparr>) freshWorld) = Inl Blocked"
    by simp
  have e: "events ?W = []" by (simp add: exWorld_def)
  show ?thesis
    using h p r3
    by (simp add: r1 r2 e pendingAfter_def map_filter_simps)
qed

text \<open>
  C2 as stated fails on the queue: with callbacks whose body is
  \<^verbatim>\<open>g.Synchronize(f + 10)\<close>, the drain runs 2 and then 3 and leaves 12 and 13 pending.
\<close>

theorem requeueing_callbacks_counterexample:
  "map_sum id events (Synchronize2_RunSynchronized (requeueExternals 0) 0 2 3 (exWorld 1 0 None []))
     = Inr [EvCall 2, EvCall 3] \<and>
   pendingAfter 0 (Synchronize2_RunSynchronized (requeueExternals 0) 0 2 3 (exWorld 1 0 None []))
     = Some [12, 13]"
proof -
  let ?G = "exGroup 1 0 None []"
  let ?W = "exWorld 1 0 None []"
  have h: "heap ?W 0 = Some ?G" by (simp add: exWorld_def)
  have p: "\<not> syncMutex ?G" "layoutResults ?G = []" "syncFuncs ?G = []" "events ?W = []"
    by (simp_all add: exGroup_def exWorld_def newWindowGroup_def)
  have b: "\<forall>f\<in>set [2, 3].
      callFunc (requeueExternals 0) f =
        (case (\<lambda>f. Some (f + 10)) f of None \<Rightarrow> Inr | Some f' \<Rightarrow> Synchronize 0 f')"
    by (simp add: requeueExternals_def inertExternals_def)
  have hv: "heap (putGroup 0 (drained ?G) ?W) 0 = Some (drained ?G)" by (simp add: putGroup_def)
  have fv: "\<not> syncMutex (drained ?G)" using p by (simp add: drained_def)
  have "Synchronize2_RunSynchronized (requeueExternals 0) 0 2 3 ?W =
          runFuncs (requeueExternals 0) [2, 3] (putGroup 0 (drained ?G) ?W)"
    using Synchronize2_RunSynchronized_free [OF h p(1), of "requeueExternals 0" 2 3] p by simp
  also note runFuncs_enqueuers [OF b hv fv]
  finally show ?thesis
    using p by (simp add: pendingAfter_def map_filter_simps putGroup_def drained_def)
qed

section \<open>Callbacks that enqueue during a drain\<close>





section \<open>Layout submissions\<close>

text \<open>
  C4. For every two layout batches submitted with \<^verbatim>\<open>SynchronizeLayout\<close> to a group
  whose queue lock is free, with no \<^verbatim>\<open>RunSynchronized\<close> between them, the second
  submission replaces the first: the state is the one the second submission alone
  leaves. The next \<^verbatim>\<open>RunSynchronized\<close> applies the second batch with its stopwatch,
  once and before the queued callbacks, when that batch is not empty; it applies nothing
  when the pending batch is empty. The first batch is never applied.
\<close>

theorem SynchronizeLayout_last_writer_wins:
  assumes h: "heap w g = Some gr" and free: "\<not> syncMutex gr"
  shows "bindR (SynchronizeLayout g r1 s1 w) (SynchronizeLayout g r2 s2) =
           SynchronizeLayout g r2 s2 w \<and>
         SynchronizeLayout2_RunSynchronized ext g r1 s1 r2 s2 w =
           bindR (if r2 \<noteq> []
                  then applyLayoutResults ext r2 s2
                         (logEvent (EvApplyLayout r2 s2) (putGroup g (drained gr) w))
                  else Inr (putGroup g (drained gr) w))
             (runFuncs ext (syncFuncs gr)) \<and>
         (layoutResults gr = [] \<longrightarrow>
            RunSynchronized ext g w = runFuncs ext (syncFuncs gr) (putGroup g (drained gr) w))"
proof -
  let ?g1 = "gr\<lparr>layoutResults := r1, layoutStopwatch := s1\<rparr>"
  let ?g2 = "gr\<lparr>layoutResults := r2, layoutStopwatch := s2\<rparr>"
  have s1: "SynchronizeLayout g r1 s1 w = Inr (putGroup g ?g1 w)"
    using h free by (rule SynchronizeLayout_free)
  have s2: "SynchronizeLayout g r2 s2 (putGroup g ?g1 w) = Inr (putGroup g ?g2 w)"
    using free by (subst SynchronizeLayout_free [where gr = ?g1]) (simp_all add: putGroup_def)
  have s2': "SynchronizeLayout g r2 s2 w = Inr (putGroup g ?g2 w)"
    using h free by (rule SynchronizeLayout_free)
  have r: "RunSynchronized ext g (putGroup g ?g2 w) =
           bindR (if r2 \<noteq> []
                  then applyLayoutResults ext r2 s2
                         (logEvent (EvApplyLayout r2 s2) (putGroup g (drained gr) w))
                  else Inr (putGroup g (drained gr) w))
             (runFuncs ext (syncFuncs gr))"
    using free
    by (subst RunSynchronized_free [where gr = ?g2]) (simp_all add: putGroup_def drained_def)
  have e: "layoutResults gr = [] \<longrightarrow>
            RunSynchronized ext g w = runFuncs ext (syncFuncs gr) (putGroup g (drained gr) w)"
    using RunSynchronized_free [OF h free, of ext] by simp
  show ?thesis
    using e by (simp add: SynchronizeLayout2_RunSynchronized_def s1 s2 s2' r)
qed

theorem SynchronizeLayout_last_writer_wins_witness:
  "heap (exWorld 1 0 None [4]) 0 = Some (exGroup 1 0 None [4]) \<and>
   \<not> syncMutex (exGroup 1 0 None [4]) \<and> layoutResults (exGroup 1 0 None [4]) = [] \<and>
   map_sum id events
     (SynchronizeLayout2_RunSynchronized inertExternals 0 [1, 2] (Some 8) [3] (Some 9)
        (exWorld 1 0 None [4]))
     = Inr [EvApplyLayout [3] (Some 9), EvCall 4] \<and>
   map_sum id events
     (SynchronizeLayout2_RunSynchronized inertExternals 0 [1, 2] (Some 8) [] (Some 9)
        (exWorld 1 0 None [4]))
     = Inr [EvCall 4] \<and>
   map_sum id events (RunSynchronized inertExternals 0 (exWorld 1 0 None [4])) = Inr [EvCall 4]"
proof -
  let ?G = "exGroup 1 0 None [4]"
  let ?W = "exWorld 1 0 None [4]"
  have h: "heap ?W 0 = Some ?G" by (simp add: exWorld_def)
  have p: "\<not> syncMutex ?G" "layoutResults ?G = []" "syncFuncs ?G = [4]" "events ?W = []"
    by (simp_all add: exGroup_def exWorld_def newWindowGroup_def)
  from SynchronizeLayout_last_writer_wins [OF h p(1), of "[1, 2]" "Some 8" "[3]" "Some 9" inertExternals]
       SynchronizeLayout_last_writer_wins [OF h p(1), of "[1, 2]" "Some 8" "[]" "Some 9" inertExternals]
       h p
  show ?thesis
    by (simp add: inertExternals_def logEvent_def putGroup_def)
qed

section \<open>The order of disposal\<close>

lemma toolTip_None_id: "toolTip r = None \<Longrightarrow> r\<lparr>toolTip := None\<rparr> = r"
  by simp

lemma dispose_normal_form:
  assumes h: "heap w g = Some gr"
  shows "dispose ext g w =
     bindR (case toolTip gr of
              None \<Rightarrow> Inr (logEvent (EvDispose g) w)
            | Some tt \<Rightarrow>
                ToolTip_Dispose ext tt (logEvent (EvToolTipDispose tt) (logEvent (EvDispose g) w)))
       (\<lambda>w1. case heap w1 g of
                None \<Rightarrow> Inl NilDereference
              | Some gr1 \<Rightarrow>
                  (case completion gr1 of
                     None \<Rightarrow> Inl NilDereference
                   | Some c \<Rightarrow>
                       runCompletion ext c (threadID gr1)
                         (logEvent (EvCompletion (threadID gr1))
                            (putGroup g (gr1\<lparr>toolTip := None, removed := True\<rparr>) w1))))"
proof (cases "toolTip gr")
  case None
  with h show ?thesis
    by (simp add: dispose_def Let_def logEvent_def modifyGroup_def putGroup_def toolTip_None_id
        split: option.splits)
next
  case (Some tt)
  show ?thesis
  proof (cases "ToolTip_Dispose ext tt (logEvent (EvToolTipDispose tt) (logEvent (EvDispose g) w))")
    case (Inl e)
    with h Some show ?thesis
      by (simp add: dispose_def Let_def logEvent_def)
  next
    case (Inr w1)
    with h Some show ?thesis
      by (simp add: dispose_def Let_def logEvent_def modifyGroup_def putGroup_def
          split: option.splits)
  qed
qed

lemma runCompletion_removeGroup_free:
  "mutex (wgm w) = freeRWMutex \<Longrightarrow>
   runCompletion ext wgm_removeGroup tid w =
     Inr (w\<lparr>wgm := (wgm w)\<lparr>groups := (case groups (wgm w) of None \<Rightarrow> None
                                        | Some mp \<Rightarrow> Some (mp(tid := None)))\<rparr>\<rparr>)"
  by (simp add: runCompletion_def removeGroup_free)

lemma lookupGroup_removed:
  "lookupGroup (m\<lparr>groups := (case groups m of None \<Rightarrow> None | Some mp \<Rightarrow> Some (mp(tid := None)))\<rparr>) tid = None"
  by (simp add: lookupGroup_def split: option.splits)

lemma runCompletion_removeGroup_result:
  assumes "runCompletion ext wgm_removeGroup tid w = Inr w'"
  shows "heap w' = heap w \<and> events w' = events w \<and> lookupGroup (wgm w') tid = None"
proof -
  from assms obtain m where m: "removeGroup tid (wgm w) = Inr m" and w': "w' = w\<lparr>wgm := m\<rparr>"
    by (auto simp: runCompletion_def bindR_eq_Inr)
  from m have "lookupGroup m tid = None"
    by (auto simp: removeGroup_def bindR_eq_Inr RWMutex_Lock_def RWMutex_Unlock_def Let_def
        lookupGroup_def split: if_splits option.splits)
  with w' show ?thesis by simp
qed

lemma sint_pred_nonneg:
  assumes "0 < sint (x::go_int)"
  shows "0 \<le> sint (x - 1)"
proof -
  have up: "sint x < 2 ^ 63" using sint_lt [of x] by simp
  have "sint (x - 1) = signed_take_bit 63 (sint x - 1)"
    by (simp add: sint_word_ariths)
  also have "\<dots> = sint x - 1"
    using assms up by (intro signed_take_bit_int_eq_self) simp_all
  finally show ?thesis using assms by simp
qed

text \<open>
  The tooltip releasing its reference from inside the group's disposal: liveness is
  zero and the tooltip's own reference is still counted, so the nested \<^verbatim>\<open>Done\<close>
  leaves liveness at minus one and returns.
\<close>

lemma Done_inside_dispose:
  assumes h: "heap v g = Some gr" and nr: "\<not> removed gr" and z: "liveness gr = 0"
    and pos: "0 < sint (refs gr)"
  shows "Done ext' g v = Inr (putGroup g (gr\<lparr>refs := refs gr - 1\<rparr>) v)"
proof -
  have nn: "0 \<le> sint (refs gr + (- 1))" using sint_pred_nonneg [OF pos] by simp
  have ne: "refs gr + (- 1) - ignored gr \<noteq> 0" using z by (simp add: liveness_def)
  show ?thesis
    using Add_live [OF h nr nn, of ext'] ne by (simp add: Done_def)
qed

text \<open>
  C10. For every WindowGroup, \<^verbatim>\<open>dispose\<close> runs in this order: the tooltip's
  \<^verbatim>\<open>Dispose\<close>, when there is a tooltip, on a state in which the group is unchanged (the
  tooltip still set, \<^verbatim>\<open>removed\<close> not yet set); then \<^verbatim>\<open>toolTip\<close> cleared and
  \<^verbatim>\<open>removed\<close> set; then the completion, called with the group's thread identifier on a
  state in which both assignments are done. Consequently, with the manager's
  \<^verbatim>\<open>removeGroup\<close> as completion, \<^verbatim>\<open>ToolTip()\<close> returns nil after disposal and the
  thread has no registered group; and a \<^verbatim>\<open>Done\<close> made by the tooltip's disposal does
  not hit the removed-group fatal check: when the tooltip's disposal releases its
  reference, the disposal entered at liveness zero returns, with that reference released.
  (\<^verbatim>\<open>dispose\<close> is entered only from \<^verbatim>\<open>Add\<close> and \<^verbatim>\<open>ignore\<close>, at liveness zero on a
  group not removed.)
\<close>

theorem dispose_steps_in_order:
  assumes h: "heap w g = Some gr"
  shows "dispose ext g w =
           bindR (case toolTip gr of
                    None \<Rightarrow> Inr (logEvent (EvDispose g) w)
                  | Some tt \<Rightarrow>
                      ToolTip_Dispose ext tt
                        (logEvent (EvToolTipDispose tt) (logEvent (EvDispose g) w)))
             (\<lambda>w1. case heap w1 g of
                      None \<Rightarrow> Inl NilDereference
                    | Some gr1 \<Rightarrow>
                        (case completion gr1 of
                           None \<Rightarrow> Inl NilDereference
                         | Some c \<Rightarrow>
                             runCompletion ext c (threadID gr1)
                               (logEvent (EvCompletion (threadID gr1))
                                  (putGroup g (gr1\<lparr>toolTip := None, removed := True\<rparr>) w1)))) \<and>
         (\<forall>tt ext'. toolTip gr = Some tt \<and> \<not> removed gr \<and> liveness gr = 0 \<longrightarrow>
            heap (logEvent (EvToolTipDispose tt) (logEvent (EvDispose g) w)) g = Some gr \<and>
            Done ext' g (logEvent (EvToolTipDispose tt) (logEvent (EvDispose g) w))
              \<noteq> Inl AddOnRemoved) \<and>
         (\<forall>w1 gr1 w'.
            (case toolTip gr of
               None \<Rightarrow> Inr (logEvent (EvDispose g) w)
             | Some tt \<Rightarrow>
                 ToolTip_Dispose ext tt
                   (logEvent (EvToolTipDispose tt) (logEvent (EvDispose g) w))) = Inr w1 \<and>
            heap w1 g = Some gr1 \<and> completion gr1 = Some wgm_removeGroup \<and>
            dispose ext g w = Inr w' \<longrightarrow>
              heap w' g = Some (gr1\<lparr>toolTip := None, removed := True\<rparr>) \<and>
              ToolTip g w' = Inr None \<and>
              lookupGroup (wgm w') (threadID gr1) = None) \<and>
         (\<forall>tt ext'. toolTip gr = Some tt \<and> \<not> removed gr \<and> liveness gr = 0 \<and>
              0 < sint (refs gr) \<and> completion gr = Some wgm_removeGroup \<and>
              mutex (wgm w) = freeRWMutex \<and> ToolTip_Dispose ext = tooltipDispose ext' g \<longrightarrow>
            dispose ext g w =
              Inr (w\<lparr>heap := (heap w)(g \<mapsto> gr\<lparr>refs := refs gr - 1, toolTip := None,
                                                removed := True\<rparr>),
                     events := events w @
                       [EvDispose g, EvToolTipDispose tt, EvCompletion (threadID gr)],
                     wgm := (wgm w)\<lparr>groups := (case groups (wgm w) of None \<Rightarrow> None
                                               | Some mp \<Rightarrow> Some (mp(threadID gr := None)))\<rparr>\<rparr>))"
proof -
  note nf = dispose_normal_form [OF h, of ext]
  have b: "heap (logEvent (EvToolTipDispose tt) (logEvent (EvDispose g) w)) g = Some gr \<and>
           Done ext' g (logEvent (EvToolTipDispose tt) (logEvent (EvDispose g) w))
             \<noteq> Inl AddOnRemoved"
    if a: "toolTip gr = Some tt \<and> \<not> removed gr \<and> liveness gr = 0" for tt ext'
  proof -
    let ?v = "logEvent (EvToolTipDispose tt) (logEvent (EvDispose g) w)"
    have hv: "heap ?v g = Some gr" using h by (simp add: logEvent_def)
    have ne: "refs gr + (- 1) - ignored gr \<noteq> 0" using a by (simp add: liveness_def)
    have "Done ext' g ?v \<noteq> Inl AddOnRemoved"
      using hv a ne by (simp add: Done_def Add_def Let_def)
    with hv show ?thesis by simp
  qed
  have c: "heap w' g = Some (gr1\<lparr>toolTip := None, removed := True\<rparr>) \<and>
           ToolTip g w' = Inr None \<and> lookupGroup (wgm w') (threadID gr1) = None"
    if a: "(case toolTip gr of
               None \<Rightarrow> Inr (logEvent (EvDispose g) w)
             | Some tt \<Rightarrow>
                 ToolTip_Dispose ext tt
                   (logEvent (EvToolTipDispose tt) (logEvent (EvDispose g) w))) = Inr w1 \<and>
            heap w1 g = Some gr1 \<and> completion gr1 = Some wgm_removeGroup \<and>
            dispose ext g w = Inr w'" for w1 gr1 w'
  proof -
    let ?w2 = "logEvent (EvCompletion (threadID gr1))
                 (putGroup g (gr1\<lparr>toolTip := None, removed := True\<rparr>) w1)"
    from a have a1: "(case toolTip gr of
               None \<Rightarrow> Inr (logEvent (EvDispose g) w)
             | Some tt \<Rightarrow>
                 ToolTip_Dispose ext tt
                   (logEvent (EvToolTipDispose tt) (logEvent (EvDispose g) w))) = Inr w1"
      and a2: "heap w1 g = Some gr1" and a3: "completion gr1 = Some wgm_removeGroup"
      and a4: "dispose ext g w = Inr w'"
      by blast+
    have "dispose ext g w = runCompletion ext wgm_removeGroup (threadID gr1) ?w2"
      by (simp add: nf a1 a2 a3)
    with a4 have "runCompletion ext wgm_removeGroup (threadID gr1) ?w2 = Inr w'"
      by simp
    from runCompletion_removeGroup_result [OF this]
    show ?thesis by (simp add: ToolTip_def logEvent_def putGroup_def)
  qed
  have d: "dispose ext g w =
              Inr (w\<lparr>heap := (heap w)(g \<mapsto> gr\<lparr>refs := refs gr - 1, toolTip := None,
                                                removed := True\<rparr>),
                     events := events w @
                       [EvDispose g, EvToolTipDispose tt, EvCompletion (threadID gr)],
                     wgm := (wgm w)\<lparr>groups := (case groups (wgm w) of None \<Rightarrow> None
                                               | Some mp \<Rightarrow> Some (mp(threadID gr := None)))\<rparr>\<rparr>)"
    if a: "toolTip gr = Some tt \<and> \<not> removed gr \<and> liveness gr = 0 \<and>
              0 < sint (refs gr) \<and> completion gr = Some wgm_removeGroup \<and>
              mutex (wgm w) = freeRWMutex \<and> ToolTip_Dispose ext = tooltipDispose ext' g" for tt ext'
  proof -
    let ?v = "logEvent (EvToolTipDispose tt) (logEvent (EvDispose g) w)"
    have hv: "heap ?v g = Some gr" using h by (simp add: logEvent_def)
    from a have "ToolTip_Dispose ext tt ?v = Done ext' g ?v"
      by (simp add: tooltipDispose_def)
    also have "\<dots> = Inr (putGroup g (gr\<lparr>refs := refs gr - 1\<rparr>) ?v)"
      using a by (intro Done_inside_dispose [OF hv]) simp_all
    finally have t: "ToolTip_Dispose ext tt ?v = Inr (putGroup g (gr\<lparr>refs := refs gr - 1\<rparr>) ?v)" .
    from a have a1: "toolTip gr = Some tt" and a5: "completion gr = Some wgm_removeGroup"
      and a6: "mutex (wgm w) = freeRWMutex"
      by blast+
    let ?w2 = "logEvent (EvCompletion (threadID gr))
                 (putGroup g (gr\<lparr>refs := refs gr - 1, toolTip := None, removed := True\<rparr>)
                    (putGroup g (gr\<lparr>refs := refs gr - 1\<rparr>) ?v))"
    have "dispose ext g w = runCompletion ext wgm_removeGroup (threadID gr) ?w2"
      by (simp add: nf a1 t a5 putGroup_def)
    also have "\<dots> = Inr (?w2\<lparr>wgm := (wgm ?w2)\<lparr>groups := (case groups (wgm ?w2) of None \<Rightarrow> None
                                        | Some mp \<Rightarrow> Some (mp(threadID gr := None)))\<rparr>\<rparr>)"
      using a6 by (intro runCompletion_removeGroup_free) (simp add: logEvent_def putGroup_def)
    finally show ?thesis
      by (simp add: logEvent_def putGroup_def)
  qed
  from nf b c d show ?thesis by blast
qed

theorem dispose_steps_in_order_witness:
  "heap (exWorld 1 1 (Some 100) []) 0 = Some (exGroup 1 1 (Some 100) []) \<and>
   toolTip (exGroup 1 1 (Some 100) []) = Some 100 \<and>
   \<not> removed (exGroup 1 1 (Some 100) []) \<and>
   liveness (exGroup 1 1 (Some 100) []) = 0 \<and>
   0 < sint (refs (exGroup 1 1 (Some 100) [])) \<and>
   completion (exGroup 1 1 (Some 100) []) = Some wgm_removeGroup \<and>
   mutex (wgm (exWorld 1 1 (Some 100) [])) = freeRWMutex \<and>
   ToolTip_Dispose (tooltipExternals 0 100) = tooltipDispose inertExternals 0 \<and>
   (\<exists>w'. dispose (tooltipExternals 0 100) 0 (exWorld 1 1 (Some 100) []) = Inr w' \<and>
      map_option refs (heap w' 0) = Some 0 \<and>
      map_option ignored (heap w' 0) = Some 1 \<and>
      map_option removed (heap w' 0) = Some True \<and>
      ToolTip 0 w' = Inr None \<and>
      lookupGroup (wgm w') 7 = None \<and>
      events w' = [EvDispose 0, EvToolTipDispose 100, EvCompletion 7]) \<and>
   Done (tooltipExternals 0 100) 0 (exWorld 2 1 (Some 100) [])
     = dispose (tooltipExternals 0 100) 0 (exWorld 1 1 (Some 100) [])"
proof -
  let ?G = "exGroup 1 1 (Some 100) []"
  let ?W = "exWorld 1 1 (Some 100) []"
  let ?ext = "tooltipExternals 0 100"
  have h: "heap ?W 0 = Some ?G" by (simp add: exWorld_def)
  have p: "toolTip ?G = Some 100" "\<not> removed ?G" "liveness ?G = 0" "0 < sint (refs ?G)"
    "completion ?G = Some wgm_removeGroup" "mutex (wgm ?W) = freeRWMutex"
    "ToolTip_Dispose ?ext = tooltipDispose inertExternals 0"
    by (simp_all add: exGroup_def exWorld_def newWindowGroup_def liveness_def tooltipExternals_def)
  have q: "threadID ?G = 7" "refs ?G - 1 = 0" "ignored ?G = 1" "events ?W = []"
    "groups (wgm ?W) = Some [7 \<mapsto> 0]"
    by (simp_all add: exGroup_def exWorld_def newWindowGroup_def)
  from dispose_steps_in_order [OF h, of ?ext] p
  have r: "dispose ?ext 0 ?W =
              Inr (?W\<lparr>heap := (heap ?W)(0 \<mapsto> ?G\<lparr>refs := refs ?G - 1, toolTip := None,
                                                removed := True\<rparr>),
                     events := events ?W @
                       [EvDispose 0, EvToolTipDispose 100, EvCompletion (threadID ?G)],
                     wgm := (wgm ?W)\<lparr>groups := (case groups (wgm ?W) of None \<Rightarrow> None
                                               | Some mp \<Rightarrow> Some (mp(threadID ?G := None)))\<rparr>\<rparr>)"
    by blast
  have s: "Done ?ext 0 (exWorld 2 1 (Some 100) []) = dispose ?ext 0 ?W"
    by (simp add: Done_def Add_def exWorld_def exGroup_def newWindowGroup_def putGroup_def)
  show ?thesis
    using h p s by (simp add: r q ToolTip_def lookupGroup_def)
qed

section \<open>The tooltip of a group\<close>





section \<open>CreateGroup\<close>

lemma setMutex_same: "mutex (wgm w) = mu \<Longrightarrow> setMutex mu w = w"
  by (simp add: setMutex_def)

lemma manager_mutex_id: "mutex m = mu \<Longrightarrow> m\<lparr>mutex := mu\<rparr> = m"
  by auto

lemma setMutex_simps [simp]:
  "heap (setMutex mu w) = heap w" "events (setMutex mu w) = events w"
  "nextPtr (setMutex mu w) = nextPtr w" "groups (wgm (setMutex mu w)) = groups (wgm w)"
  "mutex (wgm (setMutex mu w)) = mu" "setMutex mu (setMutex mu' w) = setMutex mu w"
  "lookupGroup (wgm (setMutex mu w)) tid = lookupGroup (wgm w) tid"
  by (simp_all add: setMutex_def lookupGroup_def)

text \<open>With the manager's lock free, a registered group is found on the fast path.\<close>

lemma CreateGroup_existing:
  assumes free: "mutex (wgm w) = freeRWMutex" and reg: "lookupGroup (wgm w) tid = Some g"
  shows "CreateGroup ext tid w = bindR (Add ext g 1 w) (\<lambda>w'. Inr (g, w'))"
proof -
  have g: "groups (wgm w) \<noteq> None" using reg by (auto simp: lookupGroup_def split: option.splits)
  have m: "setMutex \<lparr>readers = 0, writer = False\<rparr> w = w"
    using free by (simp add: setMutex_same freeRWMutex_def)
  show ?thesis
    using free reg g
    by (simp add: CreateGroup_def RWMutex_RLock_def RWMutex_RUnlock_def freeRWMutex_def
        Let_def m)
qed

text \<open>With no group registered, the slow path makes one, counts one reference, registers it.\<close>

lemma CreateGroup_new:
  assumes free: "mutex (wgm w) = freeRWMutex" and unreg: "lookupGroup (wgm w) tid = None"
  shows "CreateGroup ext tid w =
           Inr (nextPtr w,
                w\<lparr>heap := (heap w)(nextPtr w \<mapsto> (newWindowGroup tid (Some wgm_removeGroup))\<lparr>refs := 1\<rparr>),
                  nextPtr := Suc (nextPtr w),
                  wgm := (wgm w)\<lparr>groups := Some ((case groups (wgm w) of None \<Rightarrow> Map.empty
                                                   | Some mp \<Rightarrow> mp)(tid \<mapsto> nextPtr w))\<rparr>\<rparr>)"
proof -
  let ?new = "newWindowGroup tid (Some wgm_removeGroup)"
  have add: "Add ext (nextPtr w) 1 (putGroup (nextPtr w) ?new v\<lparr>nextPtr := n\<rparr>) =
             Inr (putGroup (nextPtr w) (?new\<lparr>refs := 1\<rparr>) v\<lparr>nextPtr := n\<rparr>)" for v n
    by (simp add: Add_def putGroup_def newWindowGroup_def Let_def)
  show ?thesis
  proof (cases "groups (wgm w)")
    case None
    with free unreg show ?thesis
      by (simp add: CreateGroup_def RWMutex_RLock_def RWMutex_RUnlock_def RWMutex_Lock_def
          RWMutex_Unlock_def freeRWMutex_def Let_def add)
         (simp add: setMutex_def putGroup_def RWMutex_Unlock_def manager_mutex_id)
  next
    case (Some mp)
    with free unreg show ?thesis
      by (simp add: CreateGroup_def RWMutex_RLock_def RWMutex_RUnlock_def RWMutex_Lock_def
          RWMutex_Unlock_def freeRWMutex_def Let_def add)
         (simp add: setMutex_def putGroup_def RWMutex_Unlock_def manager_mutex_id)
  qed
qed

text \<open>
  C5 (amended). For every thread identifier, with the manager's lock free: when a group
  is registered for the thread, \<^verbatim>\<open>CreateGroup\<close> is \<^verbatim>\<open>Add(1)\<close> on that group and, when
  that returns, returns that group. For a registered group that is not removed, whose
  \<^verbatim>\<open>refs\<close> is below the largest \<^verbatim>\<open>int\<close> and whose liveness is not minus one, the
  result is that group with \<^verbatim>\<open>refs\<close> one higher and nothing else changed: exactly one
  additional reference. For a registered group with liveness minus one the increment
  brings liveness to zero and the group is disposed before it is returned; on a
  removed group and at the largest \<^verbatim>\<open>int\<close> the call stops fatally. When no group is
  registered (the map nil or without an entry), it makes a new group with
  \<^verbatim>\<open>removeGroup\<close> as completion, counts its first reference, registers it under the
  thread identifier and returns it.
\<close>

theorem CreateGroup_returns_group_with_one_more_reference:
  assumes free: "mutex (wgm w) = freeRWMutex"
  shows "(\<forall>g. lookupGroup (wgm w) tid = Some g \<longrightarrow>
            CreateGroup ext tid w = bindR (Add ext g 1 w) (\<lambda>w'. Inr (g, w'))) \<and>
         (\<forall>g gr. lookupGroup (wgm w) tid = Some g \<and> heap w g = Some gr \<and> \<not> removed gr \<and>
                 0 \<le> sint (refs gr + 1) \<and> liveness gr \<noteq> - 1 \<longrightarrow>
            CreateGroup ext tid w = Inr (g, putGroup g (gr\<lparr>refs := refs gr + 1\<rparr>) w)) \<and>
         (\<forall>g gr. lookupGroup (wgm w) tid = Some g \<and> heap w g = Some gr \<and> \<not> removed gr \<and>
                 0 \<le> sint (refs gr + 1) \<and> liveness gr = - 1 \<longrightarrow>
            CreateGroup ext tid w =
              bindR (dispose ext g (putGroup g (gr\<lparr>refs := refs gr + 1\<rparr>) w))
                (\<lambda>w'. Inr (g, w'))) \<and>
         (\<forall>g gr. lookupGroup (wgm w) tid = Some g \<and> heap w g = Some gr \<and> removed gr \<longrightarrow>
            CreateGroup ext tid w = Inl AddOnRemoved) \<and>
         (\<forall>g gr. lookupGroup (wgm w) tid = Some g \<and> heap w g = Some gr \<and> \<not> removed gr \<and>
                 sint (refs gr + 1) < 0 \<longrightarrow>
            CreateGroup ext tid w = Inl NegativeRefs) \<and>
         (lookupGroup (wgm w) tid = None \<longrightarrow>
            CreateGroup ext tid w =
              Inr (nextPtr w,
                   w\<lparr>heap := (heap w)(nextPtr w \<mapsto>
                               (newWindowGroup tid (Some wgm_removeGroup))\<lparr>refs := 1\<rparr>),
                     nextPtr := Suc (nextPtr w),
                     wgm := (wgm w)\<lparr>groups := Some ((case groups (wgm w) of None \<Rightarrow> Map.empty
                                                      | Some mp \<Rightarrow> mp)(tid \<mapsto> nextPtr w))\<rparr>\<rparr>))"
proof -
  have a: "CreateGroup ext tid w = bindR (Add ext g 1 w) (\<lambda>w'. Inr (g, w'))"
    if "lookupGroup (wgm w) tid = Some g" for g
    using free that by (rule CreateGroup_existing)
  have zero_iff: "refs gr + 1 - ignored gr = 0 \<longleftrightarrow> liveness gr = - 1" for gr
  proof
    assume "refs gr + 1 - ignored gr = 0"
    then have "ignored gr = refs gr + 1" by simp
    then show "liveness gr = - 1" by (simp add: liveness_def)
  next
    assume "liveness gr = - 1"
    then have "refs gr - ignored gr + 1 = 0" by (simp add: liveness_def)
    then show "refs gr + 1 - ignored gr = 0" by (simp add: algebra_simps)
  qed
  have b: "CreateGroup ext tid w = Inr (g, putGroup g (gr\<lparr>refs := refs gr + 1\<rparr>) w)"
    if p: "lookupGroup (wgm w) tid = Some g \<and> heap w g = Some gr \<and> \<not> removed gr \<and>
           0 \<le> sint (refs gr + 1) \<and> liveness gr \<noteq> - 1" for g gr
  proof -
    from p have h: "heap w g = Some gr" and nr: "\<not> removed gr" and nn: "0 \<le> sint (refs gr + 1)"
      and reg: "lookupGroup (wgm w) tid = Some g"
      by blast+
    from p zero_iff [of gr] have ne: "refs gr + 1 - ignored gr \<noteq> 0" by blast
    have "Add ext g 1 w = Inr (putGroup g (gr\<lparr>refs := refs gr + 1\<rparr>) w)"
      using Add_live [OF h nr nn, of ext] ne by simp
    with a [OF reg] show ?thesis by simp
  qed
  have c: "CreateGroup ext tid w =
              bindR (dispose ext g (putGroup g (gr\<lparr>refs := refs gr + 1\<rparr>) w))
                (\<lambda>w'. Inr (g, w'))"
    if p: "lookupGroup (wgm w) tid = Some g \<and> heap w g = Some gr \<and> \<not> removed gr \<and>
           0 \<le> sint (refs gr + 1) \<and> liveness gr = - 1" for g gr
  proof -
    from p have h: "heap w g = Some gr" and nr: "\<not> removed gr" and nn: "0 \<le> sint (refs gr + 1)"
      and reg: "lookupGroup (wgm w) tid = Some g"
      by blast+
    from p zero_iff [of gr] have z: "refs gr + 1 - ignored gr = 0" by blast
    have "Add ext g 1 w = dispose ext g (putGroup g (gr\<lparr>refs := refs gr + 1\<rparr>) w)"
      using Add_live [OF h nr nn, of ext] z by simp
    with a [OF reg] show ?thesis by simp
  qed
  have d: "CreateGroup ext tid w = Inl AddOnRemoved"
    if p: "lookupGroup (wgm w) tid = Some g \<and> heap w g = Some gr \<and> removed gr" for g gr
    using a [of g] p by (simp add: Add_removed)
  have e: "CreateGroup ext tid w = Inl NegativeRefs"
    if p: "lookupGroup (wgm w) tid = Some g \<and> heap w g = Some gr \<and> \<not> removed gr \<and>
           sint (refs gr + 1) < 0" for g gr
    using a [of g] p by (simp add: Add_negative)
  have f: "lookupGroup (wgm w) tid = None \<longrightarrow>
            CreateGroup ext tid w =
              Inr (nextPtr w,
                   w\<lparr>heap := (heap w)(nextPtr w \<mapsto>
                               (newWindowGroup tid (Some wgm_removeGroup))\<lparr>refs := 1\<rparr>),
                     nextPtr := Suc (nextPtr w),
                     wgm := (wgm w)\<lparr>groups := Some ((case groups (wgm w) of None \<Rightarrow> Map.empty
                                                      | Some mp \<Rightarrow> mp)(tid \<mapsto> nextPtr w))\<rparr>\<rparr>)"
    using free by (auto intro: CreateGroup_new)
  from a b c d e f show ?thesis by blast
qed

theorem CreateGroup_returns_group_with_one_more_reference_witness:
  "mutex (wgm (exWorld 5 0 None [])) = freeRWMutex \<and>
   lookupGroup (wgm (exWorld 5 0 None [])) 7 = Some 0 \<and>
   heap (exWorld 5 0 None []) 0 = Some (exGroup 5 0 None []) \<and>
   \<not> removed (exGroup 5 0 None []) \<and> liveness (exGroup 5 0 None []) \<noteq> - 1 \<and>
   0 \<le> sint (refs (exGroup 5 0 None []) + 1) \<and>
   CreateGroup inertExternals 7 (exWorld 5 0 None [])
     = Inr (0, putGroup 0 ((exGroup 5 0 None [])\<lparr>refs := 6\<rparr>) (exWorld 5 0 None [])) \<and>
   lookupGroup (wgm (exWorld 5 0 None [])) 9 = None \<and>
   (\<exists>w'. CreateGroup inertExternals 9 (exWorld 5 0 None []) = Inr (Suc 0, w') \<and>
      lookupGroup (wgm w') 9 = Some (Suc 0) \<and> lookupGroup (wgm w') 7 = Some 0 \<and>
      map_option refs (heap w' (Suc 0)) = Some 1 \<and>
      map_option threadID (heap w' (Suc 0)) = Some 9 \<and>
      map_option refs (heap w' 0) = Some 5 \<and> mutex (wgm w') = freeRWMutex) \<and>
   mutex (wgm freshWorld) = freeRWMutex \<and> lookupGroup (wgm freshWorld) 9 = None \<and>
   (\<exists>w'. CreateGroup inertExternals 9 freshWorld = Inr (Suc 0, w') \<and>
      lookupGroup (wgm w') 9 = Some (Suc 0) \<and> map_option refs (heap w' (Suc 0)) = Some 1) \<and>
   liveness (exGroup 4 5 None []) = - 1 \<and>
   CreateGroup inertExternals 7 (exWorld 4 5 None [])
     = bindR (dispose inertExternals 0
                (putGroup 0 ((exGroup 4 5 None [])\<lparr>refs := 5\<rparr>) (exWorld 4 5 None [])))
         (\<lambda>w'. Inr (0, w')) \<and>
   sint (refs (exGroup 9223372036854775807 0 None []) + 1) < 0 \<and>
   CreateGroup inertExternals 7 (exWorld 9223372036854775807 0 None []) = Inl NegativeRefs"
proof -
  let ?G = "exGroup 5 0 None []"
  let ?W = "exWorld 5 0 None []"
  let ?G2 = "exGroup 4 5 None []"
  let ?W2 = "exWorld 4 5 None []"
  let ?G3 = "exGroup 9223372036854775807 0 None []"
  let ?W3 = "exWorld 9223372036854775807 0 None []"
  have free: "mutex (wgm ?W) = freeRWMutex" "mutex (wgm freshWorld) = freeRWMutex"
    "mutex (wgm ?W2) = freeRWMutex" "mutex (wgm ?W3) = freeRWMutex"
    by (simp_all add: exWorld_def freshWorld_def)
  have p: "lookupGroup (wgm ?W) 7 = Some 0" "heap ?W 0 = Some ?G" "\<not> removed ?G"
    "liveness ?G \<noteq> - 1" "0 \<le> sint (refs ?G + 1)" "lookupGroup (wgm ?W) 9 = None"
    "lookupGroup (wgm freshWorld) 9 = None" "refs ?G + 1 = 6" "refs ?G = 5"
    by (simp_all add: exWorld_def exGroup_def freshWorld_def newWindowGroup_def lookupGroup_def
        liveness_def)
  have p2: "lookupGroup (wgm ?W2) 7 = Some 0" "heap ?W2 0 = Some ?G2" "\<not> removed ?G2"
    "liveness ?G2 = - 1" "0 \<le> sint (refs ?G2 + 1)" "refs ?G2 + 1 = 5"
    by (simp_all add: exWorld_def exGroup_def newWindowGroup_def lookupGroup_def liveness_def)
  have p3: "lookupGroup (wgm ?W3) 7 = Some 0" "heap ?W3 0 = Some ?G3" "\<not> removed ?G3"
    "sint (refs ?G3 + 1) < 0"
    by (simp_all add: exWorld_def exGroup_def newWindowGroup_def lookupGroup_def)
  have q: "nextPtr ?W = Suc 0" "nextPtr freshWorld = Suc 0" "groups (wgm ?W) = Some [7 \<mapsto> 0]"
    "groups (wgm freshWorld) = None"
    by (simp_all add: exWorld_def freshWorld_def)
  note t1 = CreateGroup_returns_group_with_one_more_reference [OF free(1), of 7 inertExternals]
  from t1 have "lookupGroup (wgm ?W) 7 = Some 0 \<and> heap ?W 0 = Some ?G \<and> \<not> removed ?G \<and>
                 0 \<le> sint (refs ?G + 1) \<and> liveness ?G \<noteq> - 1 \<longrightarrow>
            CreateGroup inertExternals 7 ?W = Inr (0, putGroup 0 (?G\<lparr>refs := refs ?G + 1\<rparr>) ?W)"
    by blast
  with p have r1: "CreateGroup inertExternals 7 ?W = Inr (0, putGroup 0 (?G\<lparr>refs := 6\<rparr>) ?W)"
    by simp
  from CreateGroup_returns_group_with_one_more_reference [OF free(1), of 9 inertExternals] p
  have r2: "CreateGroup inertExternals 9 ?W =
              Inr (nextPtr ?W,
                   ?W\<lparr>heap := (heap ?W)(nextPtr ?W \<mapsto>
                               (newWindowGroup 9 (Some wgm_removeGroup))\<lparr>refs := 1\<rparr>),
                     nextPtr := Suc (nextPtr ?W),
                     wgm := (wgm ?W)\<lparr>groups := Some ((case groups (wgm ?W) of None \<Rightarrow> Map.empty
                                                      | Some mp \<Rightarrow> mp)(9 \<mapsto> nextPtr ?W))\<rparr>\<rparr>)"
    by blast
  from CreateGroup_returns_group_with_one_more_reference [OF free(2), of 9 inertExternals] p
  have r3: "CreateGroup inertExternals 9 freshWorld =
              Inr (nextPtr freshWorld,
                   freshWorld\<lparr>heap := (heap freshWorld)(nextPtr freshWorld \<mapsto>
                               (newWindowGroup 9 (Some wgm_removeGroup))\<lparr>refs := 1\<rparr>),
                     nextPtr := Suc (nextPtr freshWorld),
                     wgm := (wgm freshWorld)\<lparr>groups := Some ((case groups (wgm freshWorld) of None \<Rightarrow> Map.empty
                                                      | Some mp \<Rightarrow> mp)(9 \<mapsto> nextPtr freshWorld))\<rparr>\<rparr>)"
    by blast
  from CreateGroup_returns_group_with_one_more_reference [OF free(3), of 7 inertExternals]
  have "lookupGroup (wgm ?W2) 7 = Some 0 \<and> heap ?W2 0 = Some ?G2 \<and> \<not> removed ?G2 \<and>
                 0 \<le> sint (refs ?G2 + 1) \<and> liveness ?G2 = - 1 \<longrightarrow>
            CreateGroup inertExternals 7 ?W2 =
              bindR (dispose inertExternals 0 (putGroup 0 (?G2\<lparr>refs := refs ?G2 + 1\<rparr>) ?W2))
                (\<lambda>w'. Inr (0, w'))"
    by blast
  with p2 have r4: "CreateGroup inertExternals 7 ?W2 =
              bindR (dispose inertExternals 0 (putGroup 0 (?G2\<lparr>refs := 5\<rparr>) ?W2))
                (\<lambda>w'. Inr (0, w'))"
    by simp
  from CreateGroup_returns_group_with_one_more_reference [OF free(4), of 7 inertExternals]
  have "lookupGroup (wgm ?W3) 7 = Some 0 \<and> heap ?W3 0 = Some ?G3 \<and> \<not> removed ?G3 \<and>
                 sint (refs ?G3 + 1) < 0 \<longrightarrow>
            CreateGroup inertExternals 7 ?W3 = Inl NegativeRefs"
    by blast
  with p3 have r5: "CreateGroup inertExternals 7 ?W3 = Inl NegativeRefs" by simp
  show ?thesis
    using free p p2(4) p3(4) r4 r5
    by (simp add: r1 r2 r3 q lookupGroup_def newWindowGroup_def)
qed

text \<open>
  C5 as stated fails for a registered group with liveness minus one, the state C9
  describes. From an empty manager: \<^verbatim>\<open>CreateGroup(7)\<close>, \<^verbatim>\<open>CreateToolTip()\<close>,
  \<^verbatim>\<open>Add(-2)\<close> leave the group registered with \<^verbatim>\<open>refs = 0\<close>, \<^verbatim>\<open>ignored = 1\<close>; the next
  \<^verbatim>\<open>CreateGroup(7)\<close> brings liveness to zero, so the group it returns has been
  disposed: it is marked removed, no longer registered, and its \<^verbatim>\<open>refs\<close> is 0 as
  before the call, the tooltip having released its reference; the caller's \<^verbatim>\<open>Done\<close>
  then stops fatally. Without a tooltip (\<^verbatim>\<open>refs = 1\<close>, \<^verbatim>\<open>ignored = 2\<close>) the returned
  group has \<^verbatim>\<open>refs = 2\<close> and is likewise removed and unregistered.
\<close>

theorem CreateGroup_at_liveness_minus_one_counterexample:
  "returnedGroupState (overReleaseThenCreateGroup (tooltipExternals 0 100) 7 emptyWorld)
     = Some (0, 0, True, None) \<and>
   bindR (overReleaseThenCreateGroup (tooltipExternals 0 100) 7 emptyWorld)
     (\<lambda>(g, w'). Done (tooltipExternals 0 100) g w') = Inl AddOnRemoved \<and>
   lookupGroup (wgm (exWorld 1 2 None [])) 7 = Some 0 \<and>
   returnedGroupState (CreateGroup inertExternals 7 (exWorld 1 2 None []))
     = Some (0, 2, True, None) \<and>
   bindR (CreateGroup inertExternals 7 (exWorld 1 2 None []))
     (\<lambda>(g, w'). Done inertExternals g w') = Inl AddOnRemoved"
  by (simp add: returnedGroupState_def overReleaseThenCreateGroup_def emptyWorld_def
      CreateGroup_def CreateToolTip_def tooltipExternals_def tooltipNew_def
      tooltipDispose_def inertExternals_def Add_def Done_def ignore_def dispose_def
      runCompletion_def removeGroup_def RWMutex_Lock_def RWMutex_Unlock_def RWMutex_RLock_def
      RWMutex_RUnlock_def freeRWMutex_def setMutex_def lookupGroup_def
      modifyGroup_def putGroup_def logEvent_def exWorld_def exGroup_def
      newWindowGroup_def Let_def)

end
